theory Spec2Isabelle
  imports Main "HOL-Library.Multiset"
begin

section \<open>Strings as the code uses them\<close>

text \<open>
  JavaScript strings are modelled as \<^typ>\<open>string\<close>; a \<^typ>\<open>char\<close> stands for one code
  unit in the Latin-1 range (0 to 255).  \<open>toLowerCase\<close> on that range maps \<open>A\<close> to \<open>Z\<close> and
  the letters U+00C0 to U+00DE (without the multiplication sign U+00D7) to the letter 32
  positions later and leaves every other code unit alone.  \<open>trim\<close> removes the white space
  and line terminators of ECMAScript at both ends: in this range TAB, LF, VT, FF, CR, SPACE
  and NBSP.
\<close>

definition toLowerChar :: "char \<Rightarrow> char" where
  "toLowerChar c =
     (let n = (of_char c :: nat)
      in if (65 \<le> n \<and> n \<le> 90) \<or> (192 \<le> n \<and> n \<le> 222 \<and> n \<noteq> 215)
         then char_of (n + 32) else c)"

definition toLowerCase :: "string \<Rightarrow> string" where
  "toLowerCase s = map toLowerChar s"

definition isWhiteSpace :: "char \<Rightarrow> bool" where
  "isWhiteSpace c =
     (let n = (of_char c :: nat)
      in n = 9 \<or> n = 10 \<or> n = 11 \<or> n = 12 \<or> n = 13 \<or> n = 32 \<or> n = 160)"

definition trim :: "string \<Rightarrow> string" where
  "trim s = rev (dropWhile isWhiteSpace (rev (dropWhile isWhiteSpace s)))"

definition startsWith :: "string \<Rightarrow> string \<Rightarrow> bool" where
  "startsWith s p = (take (length p) s = p)"

definition endsWith :: "string \<Rightarrow> string \<Rightarrow> bool" where
  "endsWith s p = (length p \<le> length s \<and> drop (length s - length p) s = p)"

text \<open>\<open>s.includes(p)\<close>: \<open>p\<close> occurs in \<open>s\<close> as a contiguous run.\<close>

fun includesStr :: "string \<Rightarrow> string \<Rightarrow> bool" where
  "includesStr [] p = (p = [])"
| "includesStr (c # cs) p = (startsWith (c # cs) p \<or> includesStr cs p)"

section \<open>The key-value store (\<open>utils/storage\<close>)\<close>

record TransferredEmail =
  emailId :: string
  fileName :: string
  uploadedFileId :: string
  transferDate :: string
  subject :: "string option"

text \<open>\<open>ExtendedStorageData\<close>; \<open>DEFAULT_STORAGE\<close> is what \<open>chrome.storage.local.get\<close>
  answers for keys never written.\<close>

record ExtendedStorageData =
  apiKey :: string
  orgId :: string
  transferredEmails :: "TransferredEmail list"
  boringTaxFiles :: "string list"
  boringTaxLastSync :: string

definition DEFAULT_STORAGE :: ExtendedStorageData where
  "DEFAULT_STORAGE =
     \<lparr>apiKey = [], orgId = [], transferredEmails = [], boringTaxFiles = [],
      boringTaxLastSync = []\<rparr>"


definition saveSettings :: "string \<Rightarrow> string \<Rightarrow> ExtendedStorageData \<Rightarrow> ExtendedStorageData" where
  "saveSettings k org st = st\<lparr>apiKey := k, orgId := org\<rparr>"


text \<open>\<open>Array.prototype.findIndex\<close>: the index of the first element that satisfies the
  predicate; JavaScript's \<open>-1\<close> is \<open>None\<close>.\<close>

fun findIndex :: "('a \<Rightarrow> bool) \<Rightarrow> 'a list \<Rightarrow> nat option" where
  "findIndex p [] = None"
| "findIndex p (x # xs) =
     (if p x then Some 0 else map_option Suc (findIndex p xs))"

definition addTransferredEmail :: "TransferredEmail \<Rightarrow> ExtendedStorageData \<Rightarrow> ExtendedStorageData" where
  "addTransferredEmail email st =
     (case findIndex (\<lambda>e. emailId e = emailId email) (transferredEmails st) of
        Some existingIndex \<Rightarrow>
          st\<lparr>transferredEmails := (transferredEmails st)[existingIndex := email]\<rparr>
      | None \<Rightarrow> st\<lparr>transferredEmails := transferredEmails st @ [email]\<rparr>)"

definition removeTransferredEmail :: "string \<Rightarrow> ExtendedStorageData \<Rightarrow> ExtendedStorageData" where
  "removeTransferredEmail eid st =
     st\<lparr>transferredEmails := filter (\<lambda>e. emailId e \<noteq> eid) (transferredEmails st)\<rparr>"

definition isEmailTransferred :: "ExtendedStorageData \<Rightarrow> string \<Rightarrow> bool" where
  "isEmailTransferred st eid = list_ex (\<lambda>e. emailId e = eid) (transferredEmails st)"

definition getTransferredEmail :: "ExtendedStorageData \<Rightarrow> string \<Rightarrow> TransferredEmail option" where
  "getTransferredEmail st eid = find (\<lambda>e. emailId e = eid) (transferredEmails st)"


definition clearTransferredEmails :: "ExtendedStorageData \<Rightarrow> ExtendedStorageData" where
  "clearTransferredEmails st = st\<lparr>transferredEmails := []\<rparr>"

definition clearAll :: "ExtendedStorageData \<Rightarrow> ExtendedStorageData" where
  "clearAll st = DEFAULT_STORAGE"

text \<open>\<open>now\<close> is \<open>new Date().toISOString()\<close> at the time of the call.\<close>

definition saveBoringTaxFiles :: "string \<Rightarrow> string list \<Rightarrow> ExtendedStorageData \<Rightarrow> ExtendedStorageData" where
  "saveBoringTaxFiles now fileNames st =
     st\<lparr>boringTaxFiles := fileNames, boringTaxLastSync := now\<rparr>"

definition getBoringTaxFiles :: "ExtendedStorageData \<Rightarrow> string list \<times> string" where
  "getBoringTaxFiles st = (boringTaxFiles st, boringTaxLastSync st)"

definition isFileInBoringTax :: "ExtendedStorageData \<Rightarrow> string \<Rightarrow> bool" where
  "isFileInBoringTax st fname =
     (let fileNames = fst (getBoringTaxFiles st);
          normalizedFileName = trim (toLowerCase fname)
      in list_ex (\<lambda>f. trim (toLowerCase f) = normalizedFileName) fileNames)"

definition isFileTransferredByName :: "ExtendedStorageData \<Rightarrow> string \<Rightarrow> TransferredEmail option" where
  "isFileTransferredByName st fname =
     (let normalizedFileName = trim (toLowerCase fname)
      in find (\<lambda>e. trim (toLowerCase (fileName e)) = normalizedFileName) (transferredEmails st))"

section \<open>The backend client (\<open>utils/api_client\<close>), file listing only\<close>






section \<open>The service worker's handlers\<close>

record CheckStatusResponse =
  isTransferred :: bool
  transferInfo :: "TransferredEmail option"

record CheckStatusByFilenameResponse =
  isInBoringTax :: bool
  isTransferredByExtension :: bool
  transferInfoByName :: "TransferredEmail option"

record GenericResponse =
  success :: bool
  error :: "string option"

definition handleCheckStatus :: "ExtendedStorageData \<Rightarrow> string \<Rightarrow> CheckStatusResponse" where
  "handleCheckStatus st eid =
     (let info = getTransferredEmail st eid
      in \<lparr>isTransferred = (info \<noteq> None), transferInfo = info\<rparr>)"

definition handleCheckStatusByFilename :: "ExtendedStorageData \<Rightarrow> string \<Rightarrow> CheckStatusByFilenameResponse" where
  "handleCheckStatusByFilename st fname =
     (let info = isFileTransferredByName st fname;
          inBoringTax = isFileInBoringTax st fname
      in \<lparr>isInBoringTax = (inBoringTax \<or> info \<noteq> None),
          isTransferredByExtension = (info \<noteq> None),
          transferInfoByName = info\<rparr>)"

text \<open>The store's promises only resolve, so the \<open>catch\<close> branches of the two handlers
  below are never taken and both answer \<open>success\<close>.\<close>

definition handleMarkTransferred ::
  "TransferredEmail \<Rightarrow> ExtendedStorageData \<Rightarrow> GenericResponse \<times> ExtendedStorageData" where
  "handleMarkTransferred payload st =
     (\<lparr>success = True, error = None\<rparr>, addTransferredEmail payload st)"

definition handleRemoveTransferred ::
  "string \<Rightarrow> ExtendedStorageData \<Rightarrow> GenericResponse \<times> ExtendedStorageData" where
  "handleRemoveTransferred eid st =
     (\<lparr>success = True, error = None\<rparr>, removeTransferredEmail eid st)"



text \<open>The histories the store can hold: the default, changed only by the store's writers.\<close>

inductive history :: "ExtendedStorageData \<Rightarrow> bool" where
  initial: "history DEFAULT_STORAGE"
| saved: "history st \<Longrightarrow> history (saveSettings k org st)"
| added: "history st \<Longrightarrow> history (addTransferredEmail email st)"
| removed: "history st \<Longrightarrow> history (removeTransferredEmail eid st)"
| cleared: "history st \<Longrightarrow> history (clearTransferredEmails st)"
| clearedAll: "history st \<Longrightarrow> history (clearAll st)"
| synced: "history st \<Longrightarrow> history (saveBoringTaxFiles now fileNames st)"

section \<open>The content script: what it reads from the page\<close>

subsection \<open>Regular expressions\<close>

text \<open>\<open>/#[^/]+\/([^/]+)/\<close> on the URL fragment.  \<open>urlMatchHere\<close> matches at the head of
  its argument: a \<open>#\<close>, the longest run without \<open>/\<close> (not empty), a \<open>/\<close>, and the longest
  run without \<open>/\<close> (not empty), which is the captured group; a shorter first run is never
  followed by \<open>/\<close>, so backtracking adds nothing.  \<open>urlMatch\<close> is the leftmost match.\<close>

definition notSlash :: "char \<Rightarrow> bool" where
  "notSlash c = (c \<noteq> CHR ''/'')"

definition urlMatchHere :: "string \<Rightarrow> string option" where
  "urlMatchHere s =
     (case s of
        [] \<Rightarrow> None
      | c # rest \<Rightarrow>
          if c \<noteq> CHR ''#'' \<or> takeWhile notSlash rest = [] then None
          else (case dropWhile notSlash rest of
                  [] \<Rightarrow> None
                | slash # rest2 \<Rightarrow>
                    if takeWhile notSlash rest2 = [] then None
                    else Some (takeWhile notSlash rest2)))"

fun urlMatch :: "string \<Rightarrow> string option" where
  "urlMatch [] = None"
| "urlMatch (c # cs) =
     (case urlMatchHere (c # cs) of Some g \<Rightarrow> Some g | None \<Rightarrow> urlMatch cs)"

text \<open>\<open>/[\w\-_.]+\.pdf/i\<close> on a text.  With the \<open>i\<close> flag \<open>\.pdf\<close> matches the four code
  units whose lowercase is \<open>.pdf\<close>.  \<open>pdfMatchHere\<close> matches at the head of its argument:
  the greedy run of name characters is shortened from its longest length until \<open>.pdf\<close>
  follows; \<open>pdfMatch\<close> is the leftmost match, and gives the matched text.\<close>

definition isAlnum :: "char \<Rightarrow> bool" where
  "isAlnum c =
     (let n = (of_char c :: nat)
      in (48 \<le> n \<and> n \<le> 57) \<or> (65 \<le> n \<and> n \<le> 90) \<or> (97 \<le> n \<and> n \<le> 122))"

definition isNameChar :: "char \<Rightarrow> bool" where
  "isNameChar c = (isAlnum c \<or> c = CHR ''_'' \<or> c = CHR ''-'' \<or> c = CHR ''.'')"

definition dotPdfAt :: "string \<Rightarrow> bool" where
  "dotPdfAt s = (toLowerCase (take 4 s) = ''.pdf'')"

fun backtrack :: "nat \<Rightarrow> string \<Rightarrow> string option" where
  "backtrack 0 s = None"
| "backtrack (Suc k) s =
     (if dotPdfAt (drop (Suc k) s) then Some (take (Suc k + 4) s) else backtrack k s)"

definition pdfMatchHere :: "string \<Rightarrow> string option" where
  "pdfMatchHere s = backtrack (length (takeWhile isNameChar s)) s"

fun pdfMatch :: "string \<Rightarrow> string option" where
  "pdfMatch [] = None"
| "pdfMatch (c # cs) =
     (case pdfMatchHere (c # cs) of Some m \<Rightarrow> Some m | None \<Rightarrow> pdfMatch cs)"

subsection \<open>The page\<close>

text \<open>A node the extension has put into the page: its class, its identity data attributes
  (\<open>None\<close> when the attribute is not set) and, for a badge, the transfer date its title is
  composed from.\<close>

datatype NodeClass = UPLOAD_BUTTON | STATUS_BADGE

record Injected =
  className :: NodeClass
  dataFilename :: "string option"
  dataEmailId :: "string option"
  shownTransferDate :: "string option"

text \<open>An attachment element, as \<open>processAttachment\<close> reads it: the \<open>grm-processed\<close> class,
  the text of its first descendant matching \<open>ATTACHMENT_NAME\<close> (\<open>None\<close> when there is none),
  three attributes (\<open>None\<close> when absent), its own text content, whether a node appended
  below it is laid out with zero width or height, whether it has a parent element, and the
  injected nodes among its descendants and directly after it.\<close>

record Attachment =
  processed :: bool
  nameText :: "string option"
  dataTooltip :: "string option"
  titleAttr :: "string option"
  ariaLabel :: "string option"
  textContent :: string
  rendersHidden :: bool
  hasParent :: bool
  injectedInside :: "Injected list"
  injectedAfter :: "Injected list"

text \<open>An element that may match \<open>MESSAGE_CONTAINER\<close>, with its two attributes.\<close>

record MessageElement =
  dataMessageId :: "string option"
  dataLegacyMessageId :: "string option"

text \<open>The document: the URL fragment, the elements carrying message attributes in document
  order, the text of the first element matching \<open>EMAIL_SUBJECT\<close>, and the attachment
  elements (not nested in each other).\<close>

record Document =
  locationHash :: string
  messageElements :: "MessageElement list"
  subjectText :: "string option"
  attachments :: "Attachment list"

definition isMessageContainer :: "MessageElement \<Rightarrow> bool" where
  "isMessageContainer m = (dataMessageId m \<noteq> None \<or> dataLegacyMessageId m \<noteq> None)"

text \<open>The decimal digits of a number, as the template literal prints \<open>Date.now()\<close>.\<close>

fun decimal :: "nat \<Rightarrow> string" where
  "decimal n =
     (if n < 10 then [char_of (48 + n)]
      else decimal (n div 10) @ [char_of (48 + n mod 10)])"

declare decimal.simps [simp del]

definition extractEmailId :: "nat \<Rightarrow> Document \<Rightarrow> string option" where
  "extractEmailId dateNow doc =
     (case urlMatch (locationHash doc) of
        Some g \<Rightarrow> Some g
      | None \<Rightarrow>
          (case find isMessageContainer (messageElements doc) of
             Some messageContainer \<Rightarrow> dataMessageId messageContainer
           | None \<Rightarrow>
               Some (''gmail-'' @ decimal dateNow @ ''-'' @ filter isAlnum (locationHash doc))))"

definition extractEmailSubject :: "Document \<Rightarrow> string option" where
  "extractEmailSubject doc =
     (case subjectText doc of
        None \<Rightarrow> None
      | Some t \<Rightarrow> if t = [] then None else Some t)"

definition lowerOrEmpty :: "string option \<Rightarrow> string" where
  "lowerOrEmpty v = (case v of Some t \<Rightarrow> toLowerCase t | None \<Rightarrow> [])"

definition isPdfAttachment :: "Attachment \<Rightarrow> bool" where
  "isPdfAttachment attachment =
     (if endsWith (lowerOrEmpty (nameText attachment)) ''.pdf'' then True
      else if endsWith (lowerOrEmpty (dataTooltip attachment)) ''.pdf''
              \<or> includesStr (lowerOrEmpty (dataTooltip attachment)) ''.pdf'' then True
      else if endsWith (lowerOrEmpty (titleAttr attachment)) ''.pdf''
              \<or> includesStr (lowerOrEmpty (titleAttr attachment)) ''.pdf'' then True
      else if includesStr (toLowerCase (textContent attachment)) ''.pdf'' then True
      else if endsWith (lowerOrEmpty (ariaLabel attachment)) ''.pdf''
              \<or> includesStr (lowerOrEmpty (ariaLabel attachment)) ''.pdf'' then True
      else False)"

text \<open>\<open>isPdfAttachment\<close> once more, giving the signal whose test returns \<open>true\<close>: the
  methods 1 to 5 of the function in their order (name element, tooltip, title, all text
  content, aria-label), \<open>None\<close> where the function returns \<open>false\<close>.\<close>

datatype Signal = NameSignal | TooltipSignal | TitleSignal | AriaLabelSignal | TextSignal

definition classifiedBy :: "Attachment \<Rightarrow> Signal option" where
  "classifiedBy attachment =
     (if endsWith (lowerOrEmpty (nameText attachment)) ''.pdf'' then Some NameSignal
      else if endsWith (lowerOrEmpty (dataTooltip attachment)) ''.pdf''
              \<or> includesStr (lowerOrEmpty (dataTooltip attachment)) ''.pdf'' then Some TooltipSignal
      else if endsWith (lowerOrEmpty (titleAttr attachment)) ''.pdf''
              \<or> includesStr (lowerOrEmpty (titleAttr attachment)) ''.pdf'' then Some TitleSignal
      else if includesStr (toLowerCase (textContent attachment)) ''.pdf'' then Some TextSignal
      else if endsWith (lowerOrEmpty (ariaLabel attachment)) ''.pdf''
              \<or> includesStr (lowerOrEmpty (ariaLabel attachment)) ''.pdf'' then Some AriaLabelSignal
      else None)"

text \<open>\<open>v?.includes('.pdf')\<close>: false when the value is absent.\<close>

definition hasPdf :: "string option \<Rightarrow> bool" where
  "hasPdf v = (case v of Some t \<Rightarrow> includesStr t ''.pdf'' | None \<Rightarrow> False)"

definition getAttachmentFileName :: "Attachment \<Rightarrow> string" where
  "getAttachmentFileName attachment =
     (if hasPdf (nameText attachment) then trim (the (nameText attachment))
      else if hasPdf (dataTooltip attachment) then trim (the (dataTooltip attachment))
      else if hasPdf (titleAttr attachment) then trim (the (titleAttr attachment))
      else if hasPdf (ariaLabel attachment) then trim (the (ariaLabel attachment))
      else (case pdfMatch (textContent attachment) of
              Some m \<Rightarrow> m
            | None \<Rightarrow> ''document.pdf''))"

section \<open>The content script: what it puts into the page\<close>

definition createUploadButton :: "Attachment \<Rightarrow> string \<Rightarrow> string option \<Rightarrow> Injected" where
  "createUploadButton attachment eid subj =
     \<lparr>className = UPLOAD_BUTTON,
      dataFilename = Some (getAttachmentFileName attachment),
      dataEmailId = Some eid,
      shownTransferDate = None\<rparr>"

definition createStatusBadge :: "string option \<Rightarrow> Injected" where
  "createStatusBadge date =
     \<lparr>className = STATUS_BADGE, dataFilename = None, dataEmailId = None,
      shownTransferDate = date\<rparr>"

text \<open>What \<open>sendMessage\<close> gives: the promise rejects, or resolves with the handler's answer.\<close>

datatype 'a reply = Rejected string | Resolved 'a

definition markProcessed :: "nat \<Rightarrow> Document \<Rightarrow> Document" where
  "markProcessed i doc =
     doc\<lparr>attachments := (attachments doc)[i := (attachments doc ! i)\<lparr>processed := True\<rparr>]\<rparr>"

text \<open>\<open>insertElement\<close>: the node is appended to the first of the known containers below the
  attachment, or to the attachment itself; when it is laid out with zero size and the
  attachment has a parent, \<open>insertBefore\<close> moves it directly after the attachment.
  Appending a fresh node does not throw, so the \<open>catch\<close> branch is not modelled; on every
  path the node ends up in the page exactly once.\<close>

definition insertElement :: "nat \<Rightarrow> Injected \<Rightarrow> Document \<Rightarrow> Document" where
  "insertElement i element doc =
     (let attachment = attachments doc ! i
      in if rendersHidden attachment \<and> hasParent attachment
         then doc\<lparr>attachments := (attachments doc)
                [i := attachment\<lparr>injectedAfter := element # injectedAfter attachment\<rparr>]\<rparr>
         else doc\<lparr>attachments := (attachments doc)
                [i := attachment\<lparr>injectedInside := injectedInside attachment @ [element]\<rparr>]\<rparr>)"

text \<open>All injected nodes of the page, and \<open>document.querySelectorAll('.grm-upload-btn')\<close>.\<close>

definition uiNodes :: "Document \<Rightarrow> Injected list" where
  "uiNodes doc = concat (map (\<lambda>a. injectedInside a @ injectedAfter a) (attachments doc))"

definition existingButtons :: "Document \<Rightarrow> Injected list" where
  "existingButtons doc = filter (\<lambda>n. className n = UPLOAD_BUTTON) (uiNodes doc)"

text \<open>\<open>a || b\<close> on optional strings: the first one that is present and not empty.\<close>

definition orElse :: "string option \<Rightarrow> string option \<Rightarrow> string option" where
  "orElse a b = (case a of Some t \<Rightarrow> if t = [] then b else Some t | None \<Rightarrow> b)"

text \<open>\<open>processAttachment\<close> on the attachment with index \<open>i\<close> of the document (a document
  without such an element is left alone).  The two status queries are the functions
  \<open>askByFilename\<close> and \<open>askByEmail\<close>; \<open>dateNow\<close> is \<open>Date.now()\<close>.  The call runs without
  other calls in between.\<close>

definition processAttachment ::
  "(string \<Rightarrow> CheckStatusByFilenameResponse reply) \<Rightarrow> (string \<Rightarrow> CheckStatusResponse reply) \<Rightarrow>
     nat \<Rightarrow> nat \<Rightarrow> Document \<Rightarrow> Document" where
  "processAttachment askByFilename askByEmail dateNow i doc =
     (if length (attachments doc) \<le> i then doc
      else
        let attachment = attachments doc ! i
        in if processed attachment then doc
           else if list_ex (\<lambda>n. className n = UPLOAD_BUTTON) (injectedInside attachment)
                   \<or> list_ex (\<lambda>n. className n = STATUS_BADGE) (injectedInside attachment)
           then markProcessed i doc
           else if \<not> isPdfAttachment attachment then doc
           else
             let fname = getAttachmentFileName attachment
             in if list_ex (\<lambda>btn. dataFilename btn = Some fname) (existingButtons doc)
                then markProcessed i doc
                else
                  let doc1 = markProcessed i doc
                  in (case extractEmailId dateNow doc1 of
                        None \<Rightarrow> doc1
                      | Some eid \<Rightarrow>
                          if eid = [] then doc1
                          else
                            let subj = extractEmailSubject doc1;
                                button = createUploadButton attachment eid subj
                            in (case askByFilename fname of
                                  Rejected err \<Rightarrow> insertElement i button doc1
                                | Resolved filenameStatus \<Rightarrow>
                                    (case askByEmail eid of
                                       Rejected err \<Rightarrow> insertElement i button doc1
                                     | Resolved emailStatus \<Rightarrow>
                                         if isInBoringTax filenameStatus \<or> isTransferred emailStatus
                                         then insertElement i
                                                (createStatusBadge
                                                   (orElse
                                                      (map_option transferDate (transferInfoByName filenameStatus))
                                                      (map_option transferDate (transferInfo emailStatus))))
                                                doc1
                                         else insertElement i button doc1))))"

text \<open>The status queries answered by the service worker over a store.\<close>

definition askStore :: "ExtendedStorageData \<Rightarrow> string \<Rightarrow> CheckStatusByFilenameResponse reply" where
  "askStore st fname = Resolved (handleCheckStatusByFilename st fname)"

definition askStoreEmail :: "ExtendedStorageData \<Rightarrow> string \<Rightarrow> CheckStatusResponse reply" where
  "askStoreEmail st eid = Resolved (handleCheckStatus st eid)"

text \<open>The path condition under which \<open>processAttachment\<close> reaches its status queries for
  attachment \<open>i\<close>, with file name \<open>fname\<close> and email identity \<open>eid\<close>.\<close>

definition reachesStatusCheck :: "nat \<Rightarrow> nat \<Rightarrow> Document \<Rightarrow> string \<Rightarrow> string \<Rightarrow> bool" where
  "reachesStatusCheck dateNow i doc fname eid =
     (i < length (attachments doc) \<and>
      \<not> processed (attachments doc ! i) \<and>
      \<not> list_ex (\<lambda>n. className n = UPLOAD_BUTTON) (injectedInside (attachments doc ! i)) \<and>
      \<not> list_ex (\<lambda>n. className n = STATUS_BADGE) (injectedInside (attachments doc ! i)) \<and>
      isPdfAttachment (attachments doc ! i) \<and>
      fname = getAttachmentFileName (attachments doc ! i) \<and>
      \<not> list_ex (\<lambda>btn. dataFilename btn = Some fname) (existingButtons doc) \<and>
      extractEmailId dateNow doc = Some eid \<and> eid \<noteq> [])"

text \<open>The texts of an attachment element that classification and extraction read: the
  name element's text, the three attributes (each when present) and the text content.\<close>

definition signals :: "Attachment \<Rightarrow> string list" where
  "signals attachment =
     (case nameText attachment of Some t \<Rightarrow> [t] | None \<Rightarrow> []) @
     (case dataTooltip attachment of Some t \<Rightarrow> [t] | None \<Rightarrow> []) @
     (case titleAttr attachment of Some t \<Rightarrow> [t] | None \<Rightarrow> []) @
     (case ariaLabel attachment of Some t \<Rightarrow> [t] | None \<Rightarrow> []) @
     [textContent attachment]"

section \<open>Example pages and stores\<close>

text \<open>A chip whose only signal is the tooltip \<open>a.pdf\<close>; a page of an opened message (email
  identity \<open>E1\<close>) that shows this attachment twice; a store whose remote file list is
  \<open>a.pdf\<close>; a chip whose only signal is the text \<open>A.PDF\<close>; a chip
  with the aria-label \<open>x.pdf\<close> and the text \<open>y.pdf\<close>; and a page whose fragment has
  no second segment and whose message container carries only the legacy attribute.\<close>

definition pdfChip :: Attachment where
  "pdfChip =
     \<lparr>processed = False, nameText = None, dataTooltip = Some ''a.pdf'', titleAttr = None,
      ariaLabel = None, textContent = [], rendersHidden = False, hasParent = True,
      injectedInside = [], injectedAfter = []\<rparr>"

definition twoChipsPage :: Document where
  "twoChipsPage =
     \<lparr>locationHash = ''#inbox/E1'', messageElements = [], subjectText = None,
      attachments = [pdfChip, pdfChip]\<rparr>"

definition remoteKnowsA :: ExtendedStorageData where
  "remoteKnowsA = DEFAULT_STORAGE\<lparr>boringTaxFiles := [''a.pdf'']\<rparr>"

definition upperCaseChip :: Attachment where
  "upperCaseChip =
     \<lparr>processed = False, nameText = None, dataTooltip = None, titleAttr = None,
      ariaLabel = None, textContent = ''A.PDF'', rendersHidden = False, hasParent = True,
      injectedInside = [], injectedAfter = []\<rparr>"

definition labelledChip :: Attachment where
  "labelledChip =
     \<lparr>processed = False, nameText = None, dataTooltip = None, titleAttr = None,
      ariaLabel = Some ''x.pdf'', textContent = ''y.pdf'', rendersHidden = False,
      hasParent = True, injectedInside = [], injectedAfter = []\<rparr>"

definition legacyPage :: Document where
  "legacyPage =
     \<lparr>locationHash = ''#inbox/'',
      messageElements = [\<lparr>dataMessageId = None, dataLegacyMessageId = Some ''18c2''\<rparr>],
      subjectText = None, attachments = [pdfChip]\<rparr>"

section \<open>The transfer history is keyed by email identity\<close>

lemma findIndex_None: "findIndex p xs = None \<longleftrightarrow> (\<forall>x\<in>set xs. \<not> p x)"
  by (induction xs) auto

lemma findIndex_Some: "findIndex p xs = Some i \<Longrightarrow> i < length xs \<and> p (xs ! i)"
  by (induction xs arbitrary: i) (auto split: if_splits)

lemma map_update_same_key:
  "i < length xs \<Longrightarrow> f (xs ! i) = f y \<Longrightarrow> map f (xs[i := y]) = map f xs"
  by (simp add: map_update list_update_same_conv)

lemma filter_update_distinct:
  "distinct (map f xs) \<Longrightarrow> i < length xs \<Longrightarrow> f (xs ! i) = f y \<Longrightarrow>
   filter (\<lambda>x. f x = f y) (xs[i := y]) = [y]"
proof (induction xs arbitrary: i)
  case Nil
  then show ?case by simp
next
  case (Cons x xs)
  show ?case
  proof (cases i)
    case 0
    with Cons.prems have "f x = f y" and "f y \<notin> f ` set xs" by auto
    then have "filter (\<lambda>x. f x = f y) xs = []"
      unfolding filter_empty_conv by (metis image_eqI)
    with 0 show ?thesis by simp
  next
    case (Suc j)
    with Cons.prems have j: "j < length xs" "f (xs ! j) = f y" "distinct (map f xs)" by auto
    from Cons.prems Suc j have "f x \<noteq> f y"
      by (metis distinct.simps(2) list.simps(9) nth_mem image_eqI list.set_map)
    with Suc Cons.IH[OF j(3) j(1) j(2)] show ?thesis by simp
  qed
qed

lemma add_distinct:
  "distinct (map emailId (transferredEmails st)) \<Longrightarrow>
   distinct (map emailId (transferredEmails (addTransferredEmail email st)))"
  by (auto simp: addTransferredEmail_def map_update_same_key findIndex_None
           dest!: findIndex_Some split: option.splits)

lemma add_filter:
  "distinct (map emailId (transferredEmails st)) \<Longrightarrow>
   filter (\<lambda>e. emailId e = emailId email) (transferredEmails (addTransferredEmail email st))
     = [email]"
  by (auto simp: addTransferredEmail_def filter_update_distinct findIndex_None filter_empty_conv
           dest!: findIndex_Some split: option.splits)

lemma add_existing_length:
  "r \<in> set (transferredEmails st) \<Longrightarrow> emailId r = emailId email \<Longrightarrow>
   length (transferredEmails (addTransferredEmail email st)) = length (transferredEmails st)"
  by (auto simp: addTransferredEmail_def findIndex_None split: option.splits)

lemma history_distinct: "history st \<Longrightarrow> distinct (map emailId (transferredEmails st))"
proof (induction rule: history.induct)
  case (added st email)
  from added.IH show ?case by (rule add_distinct)
next
  case (removed st eid)
  from removed.IH show ?case by (simp add: removeTransferredEmail_def distinct_map_filter)
qed (simp_all add: DEFAULT_STORAGE_def saveSettings_def clearTransferredEmails_def
      clearAll_def saveBoringTaxFiles_def)

text \<open>
  Claim C3.  Every history the store can reach holds at most one record per email identity,
  and marking a transfer is an upsert: after two mark-transferred calls with the same email
  identity, the history holds exactly one record for that identity, it is the record of the
  second call (so its file name is the second one), and the second call did not lengthen
  the history.
\<close>

theorem mark_transferred_upsert:
  assumes "history st" and "emailId first = eid" and "emailId second = eid"
  shows "distinct (map emailId (transferredEmails st)) \<and>
    (let st1 = snd (handleMarkTransferred first st);
         st2 = snd (handleMarkTransferred second st1)
     in success (fst (handleMarkTransferred first st)) \<and>
        success (fst (handleMarkTransferred second st1)) \<and>
        filter (\<lambda>e. emailId e = eid) (transferredEmails st2) = [second] \<and>
        map fileName (filter (\<lambda>e. emailId e = eid) (transferredEmails st2)) = [fileName second] \<and>
        length (transferredEmails st2) = length (transferredEmails st1) \<and>
        distinct (map emailId (transferredEmails st2)))"
proof -
  let ?st1 = "addTransferredEmail first st"
  have d0: "distinct (map emailId (transferredEmails st))"
    using assms(1) by (rule history_distinct)
  have d1: "distinct (map emailId (transferredEmails ?st1))"
    using d0 by (rule add_distinct)
  have "first \<in> set (filter (\<lambda>e. emailId e = emailId first) (transferredEmails ?st1))"
    using add_filter[OF d0, of first] by simp
  then have "first \<in> set (transferredEmails ?st1)" by simp
  then have len: "length (transferredEmails (addTransferredEmail second ?st1))
      = length (transferredEmails ?st1)"
    using assms(2,3) by (intro add_existing_length[of first]) simp_all
  show ?thesis
    using d0 d1 len add_filter[OF d1, of second] add_distinct[OF d1, of second] assms(2,3)
    by (simp add: handleMarkTransferred_def Let_def)
qed

theorem mark_transferred_upsert_witness:
  "history (addTransferredEmail
      \<lparr>emailId = ''E0'', fileName = ''z.pdf'', uploadedFileId = ''9'',
       transferDate = ''2024-01-01T00:00:00.000Z'', subject = None\<rparr> DEFAULT_STORAGE) \<and>
   map fileName (transferredEmails
     (snd (handleMarkTransferred
        \<lparr>emailId = ''E1'', fileName = ''b.pdf'', uploadedFileId = ''2'',
         transferDate = ''2024-01-03T00:00:00.000Z'', subject = None\<rparr>
        (snd (handleMarkTransferred
           \<lparr>emailId = ''E1'', fileName = ''a.pdf'', uploadedFileId = ''1'',
            transferDate = ''2024-01-02T00:00:00.000Z'', subject = None\<rparr>
           (addTransferredEmail
              \<lparr>emailId = ''E0'', fileName = ''z.pdf'', uploadedFileId = ''9'',
               transferDate = ''2024-01-01T00:00:00.000Z'', subject = None\<rparr>
              DEFAULT_STORAGE)))))) = [''z.pdf'', ''b.pdf''] \<and>
   map fileName (filter (\<lambda>e. emailId e = ''E1'') (transferredEmails
     (snd (handleMarkTransferred
        \<lparr>emailId = ''E1'', fileName = ''b.pdf'', uploadedFileId = ''2'',
         transferDate = ''2024-01-03T00:00:00.000Z'', subject = None\<rparr>
        (snd (handleMarkTransferred
           \<lparr>emailId = ''E1'', fileName = ''a.pdf'', uploadedFileId = ''1'',
            transferDate = ''2024-01-02T00:00:00.000Z'', subject = None\<rparr>
           (addTransferredEmail
              \<lparr>emailId = ''E0'', fileName = ''z.pdf'', uploadedFileId = ''9'',
               transferDate = ''2024-01-01T00:00:00.000Z'', subject = None\<rparr>
              DEFAULT_STORAGE))))))) = [''b.pdf'']"
proof -
  let ?r0 = "\<lparr>emailId = ''E0'', fileName = ''z.pdf'', uploadedFileId = ''9'',
       transferDate = ''2024-01-01T00:00:00.000Z'', subject = None\<rparr>"
  have h: "history (addTransferredEmail ?r0 DEFAULT_STORAGE)"
    by (intro history.added history.initial)
  have l: "map fileName (transferredEmails
     (snd (handleMarkTransferred
        \<lparr>emailId = ''E1'', fileName = ''b.pdf'', uploadedFileId = ''2'',
         transferDate = ''2024-01-03T00:00:00.000Z'', subject = None\<rparr>
        (snd (handleMarkTransferred
           \<lparr>emailId = ''E1'', fileName = ''a.pdf'', uploadedFileId = ''1'',
            transferDate = ''2024-01-02T00:00:00.000Z'', subject = None\<rparr>
           (addTransferredEmail ?r0 DEFAULT_STORAGE)))))) = [''z.pdf'', ''b.pdf'']"
    by (simp add: handleMarkTransferred_def addTransferredEmail_def DEFAULT_STORAGE_def)
  from mark_transferred_upsert[OF h, of
      "\<lparr>emailId = ''E1'', fileName = ''a.pdf'', uploadedFileId = ''1'',
        transferDate = ''2024-01-02T00:00:00.000Z'', subject = None\<rparr>" "''E1''"
      "\<lparr>emailId = ''E1'', fileName = ''b.pdf'', uploadedFileId = ''2'',
        transferDate = ''2024-01-03T00:00:00.000Z'', subject = None\<rparr>"]
  have "map fileName (filter (\<lambda>e. emailId e = ''E1'') (transferredEmails
     (snd (handleMarkTransferred
        \<lparr>emailId = ''E1'', fileName = ''b.pdf'', uploadedFileId = ''2'',
         transferDate = ''2024-01-03T00:00:00.000Z'', subject = None\<rparr>
        (snd (handleMarkTransferred
           \<lparr>emailId = ''E1'', fileName = ''a.pdf'', uploadedFileId = ''1'',
            transferDate = ''2024-01-02T00:00:00.000Z'', subject = None\<rparr>
           (addTransferredEmail ?r0 DEFAULT_STORAGE))))))) = [''b.pdf'']"
    by (simp add: Let_def)
  with h l show ?thesis by blast
qed

section \<open>Name matching is normalized\<close>

lemma list_ex_normalized: "list_ex (\<lambda>f. n f = x) fs = (x \<in> set (map n fs))"
  by (induction fs) auto

text \<open>
  Claim C4.  Membership in the remote file set is invariant under case changes and leading
  or trailing white space, in the query and in the stored names: two queries that are equal
  after lowercasing and trimming get the same answer from \<open>isFileInBoringTax\<close> (and from
  \<open>isFileTransferredByName\<close>), two stored lists that are equal after lowercasing and
  trimming each name answer every query alike, and \<open>Invoice.PDF\<close> and \<open> invoice.pdf \<close>
  get the same answer.
\<close>

theorem remote_membership_normalized:
  "(trim (toLowerCase q1) = trim (toLowerCase q2) \<longrightarrow>
      isFileInBoringTax st q1 = isFileInBoringTax st q2 \<and>
      isFileTransferredByName st q1 = isFileTransferredByName st q2) \<and>
   (map (\<lambda>f. trim (toLowerCase f)) (boringTaxFiles st1) =
      map (\<lambda>f. trim (toLowerCase f)) (boringTaxFiles st2) \<longrightarrow>
      isFileInBoringTax st1 q = isFileInBoringTax st2 q) \<and>
   isFileInBoringTax st ''Invoice.PDF'' = isFileInBoringTax st '' invoice.pdf ''"
proof -
  have n: "trim (toLowerCase ''Invoice.PDF'') = trim (toLowerCase '' invoice.pdf '')"
    by code_simp
  show ?thesis
    by (simp add: isFileInBoringTax_def isFileTransferredByName_def getBoringTaxFiles_def
        list_ex_normalized n del: set_map)
qed

theorem remote_membership_normalized_witness:
  "trim (toLowerCase ''Invoice.PDF'') = trim (toLowerCase '' invoice.pdf '') \<and>
   map (\<lambda>f. trim (toLowerCase f)) (boringTaxFiles (DEFAULT_STORAGE\<lparr>boringTaxFiles := [''INVOICE.pdf  '']\<rparr>)) =
   map (\<lambda>f. trim (toLowerCase f)) (boringTaxFiles (DEFAULT_STORAGE\<lparr>boringTaxFiles := [''invoice.pdf'']\<rparr>)) \<and>
   isFileInBoringTax (DEFAULT_STORAGE\<lparr>boringTaxFiles := [''INVOICE.pdf  '']\<rparr>) ''Invoice.PDF'' \<and>
   isFileInBoringTax (DEFAULT_STORAGE\<lparr>boringTaxFiles := [''INVOICE.pdf  '']\<rparr>) '' invoice.pdf '' \<and>
   isFileInBoringTax (DEFAULT_STORAGE\<lparr>boringTaxFiles := [''invoice.pdf'']\<rparr>) '' invoice.pdf ''"
proof -
  have n: "trim (toLowerCase ''Invoice.PDF'') = trim (toLowerCase '' invoice.pdf '')"
    by code_simp
  have m: "map (\<lambda>f. trim (toLowerCase f)) (boringTaxFiles (DEFAULT_STORAGE\<lparr>boringTaxFiles := [''INVOICE.pdf  '']\<rparr>)) =
   map (\<lambda>f. trim (toLowerCase f)) (boringTaxFiles (DEFAULT_STORAGE\<lparr>boringTaxFiles := [''invoice.pdf'']\<rparr>))"
    by code_simp
  have a: "isFileInBoringTax (DEFAULT_STORAGE\<lparr>boringTaxFiles := [''INVOICE.pdf  '']\<rparr>) ''Invoice.PDF''"
    by code_simp
  from remote_membership_normalized
    [of "''Invoice.PDF''" "'' invoice.pdf ''"
        "DEFAULT_STORAGE\<lparr>boringTaxFiles := [''INVOICE.pdf  '']\<rparr>"
        "DEFAULT_STORAGE\<lparr>boringTaxFiles := [''INVOICE.pdf  '']\<rparr>"
        "DEFAULT_STORAGE\<lparr>boringTaxFiles := [''invoice.pdf'']\<rparr>" "'' invoice.pdf ''"]
    n m a show ?thesis by blast
qed

section \<open>The status answer for a file name\<close>

text \<open>
  Claim C10.  In every answer of check-status-by-filename, \<open>isTransferredByExtension\<close>
  implies \<open>isInBoringTax\<close>: whenever a local transfer record matches the name (after
  normalization), the file is reported as known remotely, whatever the cached remote file
  list holds.
\<close>

theorem check_by_filename_local_implies_remote:
  "(isTransferredByExtension (handleCheckStatusByFilename st fname) \<longrightarrow>
      isInBoringTax (handleCheckStatusByFilename st fname)) \<and>
   ((\<exists>e \<in> set (transferredEmails st).
        trim (toLowerCase (fileName e)) = trim (toLowerCase fname)) \<longrightarrow>
      isTransferredByExtension (handleCheckStatusByFilename st fname) \<and>
      isInBoringTax (handleCheckStatusByFilename st fname))"
proof -
  have "(isFileTransferredByName st fname \<noteq> None) =
          (\<exists>e \<in> set (transferredEmails st).
             trim (toLowerCase (fileName e)) = trim (toLowerCase fname))"
    unfolding isFileTransferredByName_def Let_def find_None_iff by blast
  then show ?thesis
    unfolding handleCheckStatusByFilename_def Let_def by simp
qed

theorem check_by_filename_local_implies_remote_witness:
  "(\<exists>e \<in> set (transferredEmails (DEFAULT_STORAGE\<lparr>transferredEmails :=
        [\<lparr>emailId = ''E1'', fileName = ''A.pdf'', uploadedFileId = ''1'',
          transferDate = ''2024-01-02T00:00:00.000Z'', subject = None\<rparr>]\<rparr>)).
        trim (toLowerCase (fileName e)) = trim (toLowerCase ''a.pdf '')) \<and>
   \<not> isFileInBoringTax (DEFAULT_STORAGE\<lparr>transferredEmails :=
        [\<lparr>emailId = ''E1'', fileName = ''A.pdf'', uploadedFileId = ''1'',
          transferDate = ''2024-01-02T00:00:00.000Z'', subject = None\<rparr>]\<rparr>) ''a.pdf '' \<and>
   isTransferredByExtension (handleCheckStatusByFilename (DEFAULT_STORAGE\<lparr>transferredEmails :=
        [\<lparr>emailId = ''E1'', fileName = ''A.pdf'', uploadedFileId = ''1'',
          transferDate = ''2024-01-02T00:00:00.000Z'', subject = None\<rparr>]\<rparr>) ''a.pdf '') \<and>
   isInBoringTax (handleCheckStatusByFilename (DEFAULT_STORAGE\<lparr>transferredEmails :=
        [\<lparr>emailId = ''E1'', fileName = ''A.pdf'', uploadedFileId = ''1'',
          transferDate = ''2024-01-02T00:00:00.000Z'', subject = None\<rparr>]\<rparr>) ''a.pdf '')"
proof -
  let ?st = "DEFAULT_STORAGE\<lparr>transferredEmails :=
        [\<lparr>emailId = ''E1'', fileName = ''A.pdf'', uploadedFileId = ''1'',
          transferDate = ''2024-01-02T00:00:00.000Z'', subject = None\<rparr>]\<rparr>"
  have n: "trim (toLowerCase ''A.pdf'') = trim (toLowerCase ''a.pdf '')"
    by code_simp
  have e: "\<exists>e \<in> set (transferredEmails ?st).
        trim (toLowerCase (fileName e)) = trim (toLowerCase ''a.pdf '')"
    using n by simp
  have r: "\<not> isFileInBoringTax ?st ''a.pdf ''"
    by (simp add: isFileInBoringTax_def getBoringTaxFiles_def DEFAULT_STORAGE_def)
  from check_by_filename_local_implies_remote[of ?st "''a.pdf ''"] e r
  show ?thesis by blast
qed

section \<open>Synchronizing the remote file list\<close>





section \<open>Injected nodes and the steps of \<open>processAttachment\<close>\<close>

lemma mset_concat_update:
  "i < length xs \<Longrightarrow>
   mset (concat (map f (xs[i := y]))) + mset (f (xs ! i)) = mset (concat (map f xs)) + mset (f y)"
proof (induction xs arbitrary: i)
  case Nil
  then show ?case by simp
next
  case (Cons x xs)
  show ?case
  proof (cases i)
    case 0
    then show ?thesis by simp
  next
    case (Suc j)
    with Cons.prems have "j < length xs" by simp
    from Cons.IH[OF this] Suc show ?thesis by (simp add: ac_simps)
  qed
qed

lemma concat_update_same:
  "f y = f (xs ! i) \<Longrightarrow> concat (map f (xs[i := y])) = concat (map f xs)"
proof (cases "i < length xs")
  case True
  assume "f y = f (xs ! i)"
  with True have "map f (xs[i := y]) = map f xs"
    by (simp add: map_update list_update_same_conv)
  then show ?thesis by simp
next
  case False
  then show ?thesis by (simp add: list_update_beyond)
qed

lemma uiNodes_markProcessed: "uiNodes (markProcessed i doc) = uiNodes doc"
  unfolding uiNodes_def markProcessed_def
  by (simp add: concat_update_same)

lemma length_markProcessed: "length (attachments (markProcessed i doc)) = length (attachments doc)"
  by (simp add: markProcessed_def)

lemma extractEmailId_markProcessed: "extractEmailId n (markProcessed i doc) = extractEmailId n doc"
  by (simp add: markProcessed_def extractEmailId_def cong: option.case_cong)

lemma extractEmailSubject_markProcessed: "extractEmailSubject (markProcessed i doc) = extractEmailSubject doc"
  by (simp add: markProcessed_def extractEmailSubject_def)

lemma mset_uiNodes_insertElement:
  assumes "i < length (attachments doc)"
  shows "mset (uiNodes (insertElement i n doc)) = add_mset n (mset (uiNodes doc))"
proof -
  let ?f = "\<lambda>a. injectedInside a @ injectedAfter a"
  let ?a = "attachments doc ! i"
  have "\<And>y. mset (concat (map ?f ((attachments doc)[i := y]))) + mset (?f ?a)
      = mset (concat (map ?f (attachments doc))) + mset (?f y)"
    using assms by (rule mset_concat_update)
  from this[of "?a\<lparr>injectedAfter := n # injectedAfter ?a\<rparr>"]
       this[of "?a\<lparr>injectedInside := injectedInside ?a @ [n]\<rparr>"]
  show ?thesis
    by (auto simp: uiNodes_def insertElement_def Let_def)
qed

lemma mset_uiNodes_insert_marked:
  "i < length (attachments doc) \<Longrightarrow>
   mset (uiNodes (insertElement i n (markProcessed i doc))) = add_mset n (mset (uiNodes doc))"
  by (simp add: mset_uiNodes_insertElement length_markProcessed uiNodes_markProcessed)

text \<open>What a call does on each path: the early returns, and the call that reaches the status
  queries.\<close>

lemma processAttachment_reaches:
  assumes "reachesStatusCheck dateNow i doc fname eid"
  shows "processAttachment askByFilename askByEmail dateNow i doc =
    (let doc1 = markProcessed i doc;
         button = createUploadButton (attachments doc ! i) eid (extractEmailSubject doc)
     in case askByFilename fname of
          Rejected err \<Rightarrow> insertElement i button doc1
        | Resolved filenameStatus \<Rightarrow>
            (case askByEmail eid of
               Rejected err \<Rightarrow> insertElement i button doc1
             | Resolved emailStatus \<Rightarrow>
                 if isInBoringTax filenameStatus \<or> isTransferred emailStatus
                 then insertElement i
                        (createStatusBadge
                           (orElse (map_option transferDate (transferInfoByName filenameStatus))
                                   (map_option transferDate (transferInfo emailStatus))))
                        doc1
                 else insertElement i button doc1))"
proof -
  from assms have a: "i < length (attachments doc)" "\<not> processed (attachments doc ! i)"
    "\<not> list_ex (\<lambda>n. className n = UPLOAD_BUTTON) (injectedInside (attachments doc ! i))"
    "\<not> list_ex (\<lambda>n. className n = STATUS_BADGE) (injectedInside (attachments doc ! i))"
    "isPdfAttachment (attachments doc ! i)"
    "getAttachmentFileName (attachments doc ! i) = fname"
    "\<not> list_ex (\<lambda>btn. dataFilename btn = Some fname) (existingButtons doc)"
    "extractEmailId dateNow doc = Some eid" "eid \<noteq> []"
    unfolding reachesStatusCheck_def by blast+
  from a(1) have b: "\<not> length (attachments doc) \<le> i" by simp
  show ?thesis
    unfolding processAttachment_def Let_def
    by (simp add: a b extractEmailId_markProcessed extractEmailSubject_markProcessed
        cong: reply.case_cong if_cong)
qed

lemma processAttachment_out: "length (attachments doc) \<le> i \<Longrightarrow> processAttachment f g n i doc = doc"
  by (simp add: processAttachment_def)

lemma processAttachment_processed:
  "processed (attachments doc ! i) \<Longrightarrow> processAttachment f g n i doc = doc"
  by (simp add: processAttachment_def Let_def)

lemma processAttachment_affordance:
  assumes "i < length (attachments doc)" "\<not> processed (attachments doc ! i)"
    and "list_ex (\<lambda>n. className n = UPLOAD_BUTTON) (injectedInside (attachments doc ! i))
         \<or> list_ex (\<lambda>n. className n = STATUS_BADGE) (injectedInside (attachments doc ! i))"
  shows "processAttachment f g n i doc = markProcessed i doc"
proof -
  from assms(1) have b: "\<not> length (attachments doc) \<le> i" by simp
  show ?thesis
    unfolding processAttachment_def Let_def if_not_P[OF b] if_not_P[OF assms(2)] if_P[OF assms(3)]
    by (rule refl)
qed

lemma processAttachment_nonPdf:
  assumes "i < length (attachments doc)" "\<not> processed (attachments doc ! i)"
    and "\<not> (list_ex (\<lambda>n. className n = UPLOAD_BUTTON) (injectedInside (attachments doc ! i))
         \<or> list_ex (\<lambda>n. className n = STATUS_BADGE) (injectedInside (attachments doc ! i)))"
    and "\<not> isPdfAttachment (attachments doc ! i)"
  shows "processAttachment f g n i doc = doc"
proof -
  from assms(1) have b: "\<not> length (attachments doc) \<le> i" by simp
  show ?thesis
    unfolding processAttachment_def Let_def if_not_P[OF b] if_not_P[OF assms(2)]
      if_not_P[OF assms(3)] if_P[OF assms(4)]
    by (rule refl)
qed

lemma processAttachment_duplicate:
  assumes "i < length (attachments doc)" "\<not> processed (attachments doc ! i)"
    and "\<not> (list_ex (\<lambda>n. className n = UPLOAD_BUTTON) (injectedInside (attachments doc ! i))
         \<or> list_ex (\<lambda>n. className n = STATUS_BADGE) (injectedInside (attachments doc ! i)))"
    and "isPdfAttachment (attachments doc ! i)"
    and "list_ex (\<lambda>btn. dataFilename btn = Some (getAttachmentFileName (attachments doc ! i)))
           (existingButtons doc)"
  shows "processAttachment f g n i doc = markProcessed i doc"
proof -
  from assms(1) have b: "\<not> length (attachments doc) \<le> i" by simp
  from assms(4) have c: "\<not> \<not> isPdfAttachment (attachments doc ! i)" by simp
  show ?thesis
    unfolding processAttachment_def Let_def if_not_P[OF b] if_not_P[OF assms(2)]
      if_not_P[OF assms(3)] if_not_P[OF c] if_P[OF assms(5)]
    by (rule refl)
qed

lemma processAttachment_noEmailId:
  assumes "i < length (attachments doc)" "\<not> processed (attachments doc ! i)"
    and "\<not> (list_ex (\<lambda>n. className n = UPLOAD_BUTTON) (injectedInside (attachments doc ! i))
         \<or> list_ex (\<lambda>n. className n = STATUS_BADGE) (injectedInside (attachments doc ! i)))"
    and "isPdfAttachment (attachments doc ! i)"
    and "\<not> list_ex (\<lambda>btn. dataFilename btn = Some (getAttachmentFileName (attachments doc ! i)))
           (existingButtons doc)"
    and "extractEmailId n doc = None \<or> extractEmailId n doc = Some []"
  shows "processAttachment f g n i doc = markProcessed i doc"
proof -
  from assms(1) have b: "\<not> length (attachments doc) \<le> i" by simp
  from assms(4) have c: "\<not> \<not> isPdfAttachment (attachments doc ! i)" by simp
  from assms(6) show ?thesis
    unfolding processAttachment_def Let_def if_not_P[OF b] if_not_P[OF assms(2)]
      if_not_P[OF assms(3)] if_not_P[OF c] if_not_P[OF assms(5)] extractEmailId_markProcessed
    by (elim disjE) simp_all
qed

lemma processAttachment_silent_or_reaches:
  "processAttachment f g n i doc = doc \<or> processAttachment f g n i doc = markProcessed i doc
   \<or> (\<exists>eid. reachesStatusCheck n i doc (getAttachmentFileName (attachments doc ! i)) eid)"
proof -
  let ?a = "attachments doc ! i"
  let ?aff = "list_ex (\<lambda>n. className n = UPLOAD_BUTTON) (injectedInside ?a)
         \<or> list_ex (\<lambda>n. className n = STATUS_BADGE) (injectedInside ?a)"
  let ?dup = "list_ex (\<lambda>btn. dataFilename btn = Some (getAttachmentFileName ?a)) (existingButtons doc)"
  consider (out) "length (attachments doc) \<le> i"
    | (proc) "processed ?a"
    | (aff) "i < length (attachments doc)" "\<not> processed ?a" "?aff"
    | (nonpdf) "i < length (attachments doc)" "\<not> processed ?a" "\<not> ?aff" "\<not> isPdfAttachment ?a"
    | (dup) "i < length (attachments doc)" "\<not> processed ?a" "\<not> ?aff" "isPdfAttachment ?a" "?dup"
    | (noid) "i < length (attachments doc)" "\<not> processed ?a" "\<not> ?aff" "isPdfAttachment ?a" "\<not> ?dup"
        "extractEmailId n doc = None \<or> extractEmailId n doc = Some []"
    | (reach) eid where "i < length (attachments doc)" "\<not> processed ?a" "\<not> ?aff"
        "isPdfAttachment ?a" "\<not> ?dup" "extractEmailId n doc = Some eid" "eid \<noteq> []"
    by (cases "extractEmailId n doc") (fastforce simp: not_le)+
  then show ?thesis
  proof cases
    case out
    then show ?thesis by (simp add: processAttachment_out)
  next
    case proc
    then show ?thesis by (simp add: processAttachment_processed)
  next
    case aff
    then show ?thesis using processAttachment_affordance[of i doc f g n] by blast
  next
    case nonpdf
    then show ?thesis using processAttachment_nonPdf[of i doc f g n] by blast
  next
    case dup
    then show ?thesis using processAttachment_duplicate[of i doc f g n] by blast
  next
    case noid
    then show ?thesis using processAttachment_noEmailId[of i doc n f g] by blast
  next
    case reach
    then have "reachesStatusCheck n i doc (getAttachmentFileName ?a) eid"
      unfolding reachesStatusCheck_def by blast
    then show ?thesis by blast
  qed
qed

section \<open>Badge or button\<close>

lemma isInBoringTax_iff:
  "isInBoringTax (handleCheckStatusByFilename st fname) \<longleftrightarrow>
     (\<exists>g \<in> set (boringTaxFiles st) \<union> fileName ` set (transferredEmails st).
        trim (toLowerCase g) = trim (toLowerCase fname))"
proof -
  have "(isFileTransferredByName st fname \<noteq> None) =
          (\<exists>e \<in> set (transferredEmails st).
             trim (toLowerCase (fileName e)) = trim (toLowerCase fname))"
    unfolding isFileTransferredByName_def Let_def find_None_iff by blast
  moreover have "isFileInBoringTax st fname =
          (\<exists>g \<in> set (boringTaxFiles st). trim (toLowerCase g) = trim (toLowerCase fname))"
    unfolding isFileInBoringTax_def Let_def getBoringTaxFiles_def list_ex_iff by simp
  ultimately show ?thesis
    unfolding handleCheckStatusByFilename_def Let_def by auto
qed

lemma isTransferred_iff:
  "isTransferred (handleCheckStatus st eid) \<longleftrightarrow> (\<exists>r \<in> set (transferredEmails st). emailId r = eid)"
  unfolding handleCheckStatus_def getTransferredEmail_def Let_def
  by (auto simp: find_None_iff)

text \<open>
  Claim C1.  For a candidate with file name \<open>fname\<close> and email identity \<open>eid\<close> whose
  processing reaches the status queries, answered by the service worker over the store
  \<open>st\<close>, exactly one node is put into the page; it is a badge if and only if \<open>fname\<close> is,
  after normalization, in the remote set (the cached remote file list together with the
  file names of the local transfer records) or a transfer record exists for \<open>eid\<close>, and an
  upload button otherwise.  In particular, with the remote file set \<open>{a.pdf}\<close> and no
  transfer record for \<open>E1\<close>, the candidate \<open>a.pdf\<close> of email \<open>E1\<close> gets a badge.
\<close>

theorem reconciler_badge_iff:
  assumes "reachesStatusCheck dateNow i doc fname eid"
  shows "(\<exists>node.
      mset (uiNodes (processAttachment (askStore st) (askStoreEmail st) dateNow i doc))
        = add_mset node (mset (uiNodes doc)) \<and>
      (className node = STATUS_BADGE \<longleftrightarrow>
         (\<exists>g \<in> set (boringTaxFiles st) \<union> fileName ` set (transferredEmails st).
            trim (toLowerCase g) = trim (toLowerCase fname)) \<or>
         (\<exists>r \<in> set (transferredEmails st). emailId r = eid)) \<and>
      (className node = UPLOAD_BUTTON \<longleftrightarrow>
         \<not> ((\<exists>g \<in> set (boringTaxFiles st) \<union> fileName ` set (transferredEmails st).
            trim (toLowerCase g) = trim (toLowerCase fname)) \<or>
         (\<exists>r \<in> set (transferredEmails st). emailId r = eid)))) \<and>
    (set (boringTaxFiles st) = {''a.pdf''} \<and> fname = ''a.pdf'' \<and> eid = ''E1'' \<and>
     \<not> (\<exists>r \<in> set (transferredEmails st). emailId r = ''E1'') \<longrightarrow>
       (\<exists>node.
          mset (uiNodes (processAttachment (askStore st) (askStoreEmail st) dateNow i doc))
            = add_mset node (mset (uiNodes doc)) \<and>
          className node = STATUS_BADGE))"
proof -
  let ?P = "(\<exists>g \<in> set (boringTaxFiles st) \<union> fileName ` set (transferredEmails st).
            trim (toLowerCase g) = trim (toLowerCase fname)) \<or>
         (\<exists>r \<in> set (transferredEmails st). emailId r = eid)"
  let ?doc' = "processAttachment (askStore st) (askStoreEmail st) dateNow i doc"
  let ?badge = "createStatusBadge
     (orElse (map_option transferDate (transferInfoByName (handleCheckStatusByFilename st fname)))
             (map_option transferDate (transferInfo (handleCheckStatus st eid))))"
  let ?button = "createUploadButton (attachments doc ! i) eid (extractEmailSubject doc)"
  from assms have i: "i < length (attachments doc)" by (simp add: reachesStatusCheck_def)
  have run: "?doc' = insertElement i (if ?P then ?badge else ?button) (markProcessed i doc)"
    unfolding processAttachment_reaches[OF assms] askStore_def askStoreEmail_def Let_def
    by (simp add: isInBoringTax_iff isTransferred_iff)
  have m: "mset (uiNodes ?doc') = add_mset (if ?P then ?badge else ?button) (mset (uiNodes doc))"
    unfolding run using i by (rule mset_uiNodes_insert_marked)
  have c: "className (if ?P then ?badge else ?button) = STATUS_BADGE \<longleftrightarrow> ?P"
    by (simp add: createStatusBadge_def createUploadButton_def)
  have c': "className (if ?P then ?badge else ?button) = UPLOAD_BUTTON \<longleftrightarrow> \<not> ?P"
    by (simp add: createStatusBadge_def createUploadButton_def)
  have first: "\<exists>node. mset (uiNodes ?doc') = add_mset node (mset (uiNodes doc)) \<and>
      (className node = STATUS_BADGE \<longleftrightarrow> ?P) \<and> (className node = UPLOAD_BUTTON \<longleftrightarrow> \<not> ?P)"
    using m c c' by blast
  have second: "set (boringTaxFiles st) = {''a.pdf''} \<and> fname = ''a.pdf'' \<and> eid = ''E1'' \<and>
     \<not> (\<exists>r \<in> set (transferredEmails st). emailId r = ''E1'') \<longrightarrow>
       (\<exists>node. mset (uiNodes ?doc') = add_mset node (mset (uiNodes doc)) \<and>
          className node = STATUS_BADGE)"
  proof
    assume h: "set (boringTaxFiles st) = {''a.pdf''} \<and> fname = ''a.pdf'' \<and> eid = ''E1'' \<and>
     \<not> (\<exists>r \<in> set (transferredEmails st). emailId r = ''E1'')"
    then have "''a.pdf'' \<in> set (boringTaxFiles st) \<union> fileName ` set (transferredEmails st)"
      and "fname = ''a.pdf''" by simp_all
    then have p: "?P" by blast
    from c p have "className (if ?P then ?badge else ?button) = STATUS_BADGE" by (rule iffD2)
    with m show "\<exists>node. mset (uiNodes ?doc') = add_mset node (mset (uiNodes doc)) \<and>
          className node = STATUS_BADGE" by blast
  qed
  from first second show ?thesis by blast
qed

theorem reconciler_badge_iff_witness:
  "reachesStatusCheck 0 0 twoChipsPage ''a.pdf'' ''E1'' \<and>
   set (boringTaxFiles remoteKnowsA) = {''a.pdf''} \<and>
   \<not> (\<exists>r \<in> set (transferredEmails remoteKnowsA). emailId r = ''E1'') \<and>
   (\<exists>node. mset (uiNodes (processAttachment (askStore remoteKnowsA) (askStoreEmail remoteKnowsA)
              0 0 twoChipsPage)) = add_mset node (mset (uiNodes twoChipsPage)) \<and>
           className node = STATUS_BADGE) \<and>
   uiNodes (processAttachment (askStore remoteKnowsA) (askStoreEmail remoteKnowsA) 0 0 twoChipsPage)
     = [createStatusBadge None]"
proof -
  have r: "reachesStatusCheck 0 0 twoChipsPage ''a.pdf'' ''E1''" by code_simp
  have s: "set (boringTaxFiles remoteKnowsA) = {''a.pdf''}"
    by (simp add: remoteKnowsA_def DEFAULT_STORAGE_def)
  have t: "\<not> (\<exists>r \<in> set (transferredEmails remoteKnowsA). emailId r = ''E1'')"
    by (simp add: remoteKnowsA_def DEFAULT_STORAGE_def)
  have u: "uiNodes (processAttachment (askStore remoteKnowsA) (askStoreEmail remoteKnowsA) 0 0
      twoChipsPage) = [createStatusBadge None]" by code_simp
  from reconciler_badge_iff[OF r, of remoteKnowsA] s t
  have "\<exists>node. mset (uiNodes (processAttachment (askStore remoteKnowsA) (askStoreEmail remoteKnowsA)
              0 0 twoChipsPage)) = add_mset node (mset (uiNodes twoChipsPage)) \<and>
           className node = STATUS_BADGE" by blast
  with r s t u show ?thesis by blast
qed

text \<open>
  Claim C2.  When a candidate's processing reaches the status queries and the round trip
  rejects (the query by file name, or after it the query by email identity), exactly one
  node is put into the page and it is the upload button of that candidate: no badge is
  added, and the page does not stay without a node for the candidate.
\<close>

theorem fail_open_button:
  assumes "reachesStatusCheck dateNow i doc fname eid"
    and "askByFilename fname = Rejected err \<or>
         (\<exists>filenameStatus. askByFilename fname = Resolved filenameStatus \<and>
                            askByEmail eid = Rejected err)"
  shows "mset (uiNodes (processAttachment askByFilename askByEmail dateNow i doc))
           = add_mset (createUploadButton (attachments doc ! i) eid (extractEmailSubject doc))
               (mset (uiNodes doc)) \<and>
         className (createUploadButton (attachments doc ! i) eid (extractEmailSubject doc))
           = UPLOAD_BUTTON \<and>
         filter_mset (\<lambda>n. className n = STATUS_BADGE)
             (mset (uiNodes (processAttachment askByFilename askByEmail dateNow i doc)))
           = filter_mset (\<lambda>n. className n = STATUS_BADGE) (mset (uiNodes doc)) \<and>
         length (uiNodes (processAttachment askByFilename askByEmail dateNow i doc))
           = Suc (length (uiNodes doc))"
proof -
  let ?button = "createUploadButton (attachments doc ! i) eid (extractEmailSubject doc)"
  let ?doc' = "processAttachment askByFilename askByEmail dateNow i doc"
  from assms(1) have i: "i < length (attachments doc)" by (simp add: reachesStatusCheck_def)
  from assms(2) have run: "?doc' = insertElement i ?button (markProcessed i doc)"
    unfolding processAttachment_reaches[OF assms(1)] Let_def by auto
  have m: "mset (uiNodes ?doc') = add_mset ?button (mset (uiNodes doc))"
    unfolding run using i by (rule mset_uiNodes_insert_marked)
  have c: "className ?button = UPLOAD_BUTTON" by (simp add: createUploadButton_def)
  have l: "length (uiNodes ?doc') = Suc (length (uiNodes doc))"
    using arg_cong[OF m, of size] by simp
  from m c l show ?thesis by simp
qed

theorem fail_open_button_witness:
  "reachesStatusCheck 0 0 twoChipsPage ''a.pdf'' ''E1'' \<and>
   mset (uiNodes (processAttachment (\<lambda>f. Rejected ''Receiving end does not exist'')
            (askStoreEmail remoteKnowsA) 0 0 twoChipsPage))
     = {#createUploadButton pdfChip ''E1'' None#} \<and>
   mset (uiNodes (processAttachment (askStore remoteKnowsA)
            (\<lambda>e. Rejected ''Receiving end does not exist'') 0 0 twoChipsPage))
     = {#createUploadButton pdfChip ''E1'' None#}"
proof -
  have r: "reachesStatusCheck 0 0 twoChipsPage ''a.pdf'' ''E1''" by code_simp
  have a: "attachments twoChipsPage ! 0 = pdfChip" by (simp add: twoChipsPage_def)
  have e: "extractEmailSubject twoChipsPage = None" by (simp add: extractEmailSubject_def twoChipsPage_def)
  have u: "uiNodes twoChipsPage = []" by (simp add: uiNodes_def twoChipsPage_def pdfChip_def)
  from fail_open_button[OF r, of "\<lambda>f. Rejected ''Receiving end does not exist''"
      "''Receiving end does not exist''" "askStoreEmail remoteKnowsA"]
  have 1: "mset (uiNodes (processAttachment (\<lambda>f. Rejected ''Receiving end does not exist'')
            (askStoreEmail remoteKnowsA) 0 0 twoChipsPage))
     = {#createUploadButton pdfChip ''E1'' None#}"
    by (simp add: a e u)
  from fail_open_button[OF r, of "askStore remoteKnowsA"
      "''Receiving end does not exist''" "\<lambda>e. Rejected ''Receiving end does not exist''"]
  have 2: "mset (uiNodes (processAttachment (askStore remoteKnowsA)
            (\<lambda>e. Rejected ''Receiving end does not exist'') 0 0 twoChipsPage))
     = {#createUploadButton pdfChip ''E1'' None#}"
    by (simp add: a e u askStore_def)
  from r 1 2 show ?thesis by blast
qed

section \<open>Re-scanning\<close>

text \<open>
  Claim C5, as the code has it.  Processing a node that carries the processed marker changes
  nothing; and processing a node that carries the marker, or that already contains a button
  or a badge, or whose extracted file name is the \<open>data-filename\<close> of an upload button
  anywhere on the page, puts no node into the page.
\<close>

theorem rescan_inserts_nothing:
  "(processed (attachments doc ! i) \<longrightarrow>
      processAttachment askByFilename askByEmail dateNow i doc = doc) \<and>
   (processed (attachments doc ! i)
      \<or> list_ex (\<lambda>n. className n = UPLOAD_BUTTON) (injectedInside (attachments doc ! i))
      \<or> list_ex (\<lambda>n. className n = STATUS_BADGE) (injectedInside (attachments doc ! i))
      \<or> list_ex (\<lambda>btn. dataFilename btn = Some (getAttachmentFileName (attachments doc ! i)))
           (existingButtons doc) \<longrightarrow>
      uiNodes (processAttachment askByFilename askByEmail dateNow i doc) = uiNodes doc)"
proof -
  have "processAttachment askByFilename askByEmail dateNow i doc = doc
      \<or> processAttachment askByFilename askByEmail dateNow i doc = markProcessed i doc"
    if h: "processed (attachments doc ! i)
      \<or> list_ex (\<lambda>n. className n = UPLOAD_BUTTON) (injectedInside (attachments doc ! i))
      \<or> list_ex (\<lambda>n. className n = STATUS_BADGE) (injectedInside (attachments doc ! i))
      \<or> list_ex (\<lambda>btn. dataFilename btn = Some (getAttachmentFileName (attachments doc ! i)))
           (existingButtons doc)"
    using processAttachment_silent_or_reaches[of askByFilename askByEmail dateNow i doc] h
    unfolding reachesStatusCheck_def by blast
  then show ?thesis
    using processAttachment_processed[of doc i askByFilename askByEmail dateNow]
    by (auto simp: uiNodes_markProcessed)
qed

theorem rescan_inserts_nothing_witness:
  "list_ex (\<lambda>btn. dataFilename btn = Some (getAttachmentFileName
        (attachments (processAttachment (askStore DEFAULT_STORAGE) (askStoreEmail DEFAULT_STORAGE)
           0 0 twoChipsPage) ! 1)))
     (existingButtons (processAttachment (askStore DEFAULT_STORAGE) (askStoreEmail DEFAULT_STORAGE)
           0 0 twoChipsPage)) \<and>
   uiNodes (processAttachment (askStore DEFAULT_STORAGE) (askStoreEmail DEFAULT_STORAGE) 0 1
       (processAttachment (askStore DEFAULT_STORAGE) (askStoreEmail DEFAULT_STORAGE) 0 0 twoChipsPage))
     = uiNodes (processAttachment (askStore DEFAULT_STORAGE) (askStoreEmail DEFAULT_STORAGE)
           0 0 twoChipsPage) \<and>
   uiNodes (processAttachment (askStore DEFAULT_STORAGE) (askStoreEmail DEFAULT_STORAGE)
           0 0 twoChipsPage) = [createUploadButton pdfChip ''E1'' None]"
proof -
  let ?doc1 = "processAttachment (askStore DEFAULT_STORAGE) (askStoreEmail DEFAULT_STORAGE)
           0 0 twoChipsPage"
  have d: "list_ex (\<lambda>btn. dataFilename btn = Some (getAttachmentFileName (attachments ?doc1 ! 1)))
     (existingButtons ?doc1)" by code_simp
  have u: "uiNodes ?doc1 = [createUploadButton pdfChip ''E1'' None]" by code_simp
  from rescan_inserts_nothing[of ?doc1 1 "askStore DEFAULT_STORAGE" "askStoreEmail DEFAULT_STORAGE" 0] d
  have "uiNodes (processAttachment (askStore DEFAULT_STORAGE) (askStoreEmail DEFAULT_STORAGE) 0 1 ?doc1)
     = uiNodes ?doc1" by blast
  with d u show ?thesis by blast
qed

text \<open>
  A badge elsewhere on the page does not stop a second node: two chips show \<open>a.pdf\<close>, the
  remote set holds \<open>a.pdf\<close>; the first chip gets a badge, and processing the second chip,
  whose file name is the same, adds a second badge.
\<close>

theorem rescan_badge_elsewhere_counterexample:
  "getAttachmentFileName (attachments twoChipsPage ! 0) = ''a.pdf'' \<and>
   getAttachmentFileName (attachments twoChipsPage ! 1) = ''a.pdf'' \<and>
   uiNodes (processAttachment (askStore remoteKnowsA) (askStoreEmail remoteKnowsA) 0 0 twoChipsPage)
     = [createStatusBadge None] \<and>
   uiNodes (processAttachment (askStore remoteKnowsA) (askStoreEmail remoteKnowsA) 0 1
       (processAttachment (askStore remoteKnowsA) (askStoreEmail remoteKnowsA) 0 0 twoChipsPage))
     = [createStatusBadge None, createStatusBadge None]"
  by code_simp

section \<open>Identity attributes of injected nodes\<close>

text \<open>
  Claim C8, as the code has it.  A call of \<open>processAttachment\<close> either puts no node into
  the page or exactly one: an upload button, whose \<open>data-filename\<close> is the candidate's
  extracted file name and whose \<open>data-email-id\<close> is the extracted email identity, or a
  status badge, which carries neither attribute.
\<close>

theorem injected_identity_attributes:
  "uiNodes (processAttachment askByFilename askByEmail dateNow i doc) = uiNodes doc \<or>
   (\<exists>node eid.
      mset (uiNodes (processAttachment askByFilename askByEmail dateNow i doc))
        = add_mset node (mset (uiNodes doc)) \<and>
      extractEmailId dateNow doc = Some eid \<and>
      (className node = UPLOAD_BUTTON \<and>
         dataFilename node = Some (getAttachmentFileName (attachments doc ! i)) \<and>
         dataEmailId node = Some eid
       \<or> className node = STATUS_BADGE \<and> dataFilename node = None \<and> dataEmailId node = None))"
proof (cases "\<exists>eid. reachesStatusCheck dateNow i doc (getAttachmentFileName (attachments doc ! i)) eid")
  case True
  then obtain fname eid where r: "reachesStatusCheck dateNow i doc fname eid" by blast
  let ?doc1 = "markProcessed i doc"
  let ?button = "createUploadButton (attachments doc ! i) eid (extractEmailSubject doc)"
  from r have i: "i < length (attachments doc)" and e: "extractEmailId dateNow doc = Some eid"
    by (simp_all add: reachesStatusCheck_def)
  have "\<exists>node. processAttachment askByFilename askByEmail dateNow i doc = insertElement i node ?doc1
      \<and> (node = ?button \<or> (\<exists>d. node = createStatusBadge d))"
    unfolding processAttachment_reaches[OF r] Let_def
    by (auto split: reply.splits)
  then obtain node where n: "processAttachment askByFilename askByEmail dateNow i doc = insertElement i node ?doc1"
    and k: "node = ?button \<or> (\<exists>d. node = createStatusBadge d)" by blast
  have m: "mset (uiNodes (processAttachment askByFilename askByEmail dateNow i doc)) = add_mset node (mset (uiNodes doc))"
    unfolding n using i by (rule mset_uiNodes_insert_marked)
  from k have "className node = UPLOAD_BUTTON \<and>
         dataFilename node = Some (getAttachmentFileName (attachments doc ! i)) \<and>
         dataEmailId node = Some eid
       \<or> className node = STATUS_BADGE \<and> dataFilename node = None \<and> dataEmailId node = None"
    by (auto simp: createUploadButton_def createStatusBadge_def)
  with m e show ?thesis by blast
next
  case False
  with processAttachment_silent_or_reaches[of askByFilename askByEmail dateNow i doc]
  have "processAttachment askByFilename askByEmail dateNow i doc = doc
      \<or> processAttachment askByFilename askByEmail dateNow i doc = markProcessed i doc"
    by blast
  then have "uiNodes (processAttachment askByFilename askByEmail dateNow i doc) = uiNodes doc"
    by (auto simp: uiNodes_markProcessed)
  then show ?thesis by simp
qed

theorem injected_identity_attributes_witness:
  "uiNodes (processAttachment (askStore DEFAULT_STORAGE) (askStoreEmail DEFAULT_STORAGE) 0 0 twoChipsPage)
     \<noteq> uiNodes twoChipsPage \<and>
   (\<exists>node eid.
      mset (uiNodes (processAttachment (askStore DEFAULT_STORAGE) (askStoreEmail DEFAULT_STORAGE)
          0 0 twoChipsPage)) = add_mset node (mset (uiNodes twoChipsPage)) \<and>
      extractEmailId 0 twoChipsPage = Some eid \<and>
      (className node = UPLOAD_BUTTON \<and>
         dataFilename node = Some (getAttachmentFileName (attachments twoChipsPage ! 0)) \<and>
         dataEmailId node = Some eid
       \<or> className node = STATUS_BADGE \<and> dataFilename node = None \<and> dataEmailId node = None))"
proof -
  have n: "uiNodes (processAttachment (askStore DEFAULT_STORAGE) (askStoreEmail DEFAULT_STORAGE)
      0 0 twoChipsPage) \<noteq> uiNodes twoChipsPage" by code_simp
  with injected_identity_attributes[of "askStore DEFAULT_STORAGE" "askStoreEmail DEFAULT_STORAGE"
      0 0 twoChipsPage]
  show ?thesis by blast
qed

text \<open>
  The badge put into the page for a file known remotely has no \<open>data-filename\<close> and no
  \<open>data-email-id\<close>.
\<close>

theorem badge_without_identity_counterexample:
  "uiNodes (processAttachment (askStore remoteKnowsA) (askStoreEmail remoteKnowsA) 0 0 twoChipsPage)
     = [\<lparr>className = STATUS_BADGE, dataFilename = None, dataEmailId = None,
         shownTransferDate = None\<rparr>]"
  by code_simp

section \<open>File name extraction and classification\<close>

lemma startsWith_iff: "startsWith s p \<longleftrightarrow> (\<exists>b. s = p @ b)"
  unfolding startsWith_def
  by (metis append_eq_conv_conj append_take_drop_id)

lemma includesStr_iff: "includesStr s p \<longleftrightarrow> (\<exists>a b. s = a @ p @ b)"
proof (induction s)
  case Nil
  then show ?case by simp
next
  case (Cons c cs)
  show ?case
  proof
    assume "includesStr (c # cs) p"
    then consider "startsWith (c # cs) p" | "includesStr cs p" by auto
    then show "\<exists>a b. c # cs = a @ p @ b"
    proof cases
      case 1
      then obtain b where "c # cs = p @ b" unfolding startsWith_iff by blast
      then have "c # cs = [] @ p @ b" by simp
      then show ?thesis by blast
    next
      case 2
      with Cons.IH obtain a b where "cs = a @ p @ b" by blast
      then have "c # cs = (c # a) @ p @ b" by simp
      then show ?thesis by blast
    qed
  next
    assume "\<exists>a b. c # cs = a @ p @ b"
    then obtain a b where e: "c # cs = a @ p @ b" by blast
    show "includesStr (c # cs) p"
    proof (cases a)
      case Nil
      with e have "startsWith (c # cs) p" unfolding startsWith_iff by auto
      then show ?thesis by simp
    next
      case (Cons d a')
      with e have "cs = a' @ p @ b" by simp
      with Cons.IH have "includesStr cs p" by blast
      then show ?thesis by simp
    qed
  qed
qed

lemma lower_dotPdf: "toLowerCase ''.pdf'' = ''.pdf''"
  by code_simp

lemma includesStr_lower:
  assumes "includesStr t ''.pdf''"
  shows "includesStr (toLowerCase t) ''.pdf''"
proof -
  from assms obtain a b where "t = a @ ''.pdf'' @ b" unfolding includesStr_iff by blast
  then have "toLowerCase t = toLowerCase a @ toLowerCase ''.pdf'' @ toLowerCase b"
    by (simp add: toLowerCase_def)
  then show ?thesis unfolding includesStr_iff lower_dotPdf by blast
qed

lemma dotPdfAt_includes:
  assumes "dotPdfAt (drop k s)"
  shows "includesStr (toLowerCase s) ''.pdf''"
proof -
  from assms have "take 4 (toLowerCase (drop k s)) = ''.pdf''"
    by (simp add: dotPdfAt_def toLowerCase_def take_map)
  then have "toLowerCase (drop k s) = ''.pdf'' @ drop 4 (toLowerCase (drop k s))"
    by (metis append_take_drop_id)
  moreover have "toLowerCase s = toLowerCase (take k s) @ toLowerCase (drop k s)"
    by (metis append_take_drop_id map_append toLowerCase_def)
  ultimately have "toLowerCase s
      = toLowerCase (take k s) @ ''.pdf'' @ drop 4 (toLowerCase (drop k s))"
    by simp
  then show ?thesis unfolding includesStr_iff by blast
qed

lemma backtrack_includes:
  "backtrack k s = Some m \<Longrightarrow> includesStr (toLowerCase s) ''.pdf''"
  by (induction k) (auto split: if_splits dest: dotPdfAt_includes)

lemma pdfMatch_includes:
  "pdfMatch t = Some m \<Longrightarrow> includesStr (toLowerCase t) ''.pdf''"
proof (induction t)
  case Nil
  then show ?case by simp
next
  case (Cons c cs)
  show ?case
  proof (cases "pdfMatchHere (c # cs)")
    case None
    with Cons.prems have "pdfMatch cs = Some m" by simp
    then have "includesStr (toLowerCase cs) ''.pdf''" by (rule Cons.IH)
    then show ?thesis by (simp add: toLowerCase_def)
  next
    case (Some m')
    then show ?thesis unfolding pdfMatchHere_def by (rule backtrack_includes)
  qed
qed

lemma endsWith_includes: "endsWith s p \<Longrightarrow> includesStr s p"
proof -
  assume "endsWith s p"
  then have "s = take (length s - length p) s @ p @ []"
    unfolding endsWith_def by (metis append_Nil2 append_take_drop_id)
  then show ?thesis unfolding includesStr_iff by blast
qed

lemma lowerOrEmpty_clean:
  "(\<And>t. v = Some t \<Longrightarrow> \<not> includesStr (toLowerCase t) ''.pdf'') \<Longrightarrow>
   \<not> includesStr (lowerOrEmpty v) ''.pdf'' \<and> \<not> endsWith (lowerOrEmpty v) ''.pdf'' \<and> \<not> hasPdf v"
proof (cases v)
  case None
  then show ?thesis by (simp add: lowerOrEmpty_def hasPdf_def endsWith_def)
next
  case (Some t)
  assume "\<And>t. v = Some t \<Longrightarrow> \<not> includesStr (toLowerCase t) ''.pdf''"
  with Some have n: "\<not> includesStr (toLowerCase t) ''.pdf''" by blast
  then have "\<not> endsWith (toLowerCase t) ''.pdf''" and "\<not> includesStr t ''.pdf''"
    using endsWith_includes includesStr_lower by blast+
  with n Some show ?thesis by (simp add: lowerOrEmpty_def hasPdf_def)
qed

lemma classifiedBy_isPdfAttachment: "isPdfAttachment a \<longleftrightarrow> classifiedBy a \<noteq> None"
  unfolding isPdfAttachment_def classifiedBy_def by simp

text \<open>
  Claim C9, as the code has it.  File name extraction is total and tries the signals in the
  order name text, tooltip, title, aria-label, text content: the first of the name text,
  the tooltip, the title and the aria-label that contains \<open>.pdf\<close> gives the file name
  (trimmed); when none of them does, the leftmost match of the file name pattern in the text
  content gives it, and the placeholder \<open>document.pdf\<close> when there is no match.  An
  element whose tooltip is \<open>Invoice_2024.pdf\<close> and which has no other signal gets the
  file name \<open>Invoice_2024.pdf\<close> and is classified as PDF; and for every element in which
  no signal contains \<open>.pdf\<close> in any letter case, extraction gives the placeholder (and
  classification says it is no PDF).
\<close>

theorem filename_extraction_cascade:
  "(dataTooltip a = Some ''Invoice_2024.pdf'' \<and> nameText a = None \<and> titleAttr a = None \<and>
      ariaLabel a = None \<and> textContent a = [] \<longrightarrow>
      getAttachmentFileName a = ''Invoice_2024.pdf'' \<and> isPdfAttachment a) \<and>
   (nameText a = Some t \<and> includesStr t ''.pdf'' \<longrightarrow> getAttachmentFileName a = trim t) \<and>
   (\<not> hasPdf (nameText a) \<and> dataTooltip a = Some t \<and> includesStr t ''.pdf'' \<longrightarrow>
      getAttachmentFileName a = trim t) \<and>
   (\<not> hasPdf (nameText a) \<and> \<not> hasPdf (dataTooltip a) \<and>
      titleAttr a = Some t \<and> includesStr t ''.pdf'' \<longrightarrow>
      getAttachmentFileName a = trim t) \<and>
   (\<not> hasPdf (nameText a) \<and> \<not> hasPdf (dataTooltip a) \<and> \<not> hasPdf (titleAttr a) \<and>
      ariaLabel a = Some t \<and> includesStr t ''.pdf'' \<longrightarrow>
      getAttachmentFileName a = trim t) \<and>
   (\<not> hasPdf (nameText a) \<and> \<not> hasPdf (dataTooltip a) \<and> \<not> hasPdf (titleAttr a) \<and>
      \<not> hasPdf (ariaLabel a) \<and> pdfMatch (textContent a) = Some m \<longrightarrow>
      getAttachmentFileName a = m) \<and>
   (\<not> hasPdf (nameText a) \<and> \<not> hasPdf (dataTooltip a) \<and> \<not> hasPdf (titleAttr a) \<and>
      \<not> hasPdf (ariaLabel a) \<and> pdfMatch (textContent a) = None \<longrightarrow>
      getAttachmentFileName a = ''document.pdf'') \<and>
   ((\<forall>s \<in> set (signals a). \<not> includesStr (toLowerCase s) ''.pdf'') \<longrightarrow>
      getAttachmentFileName a = ''document.pdf'' \<and> \<not> isPdfAttachment a)"
proof (intro conjI impI)
  assume h: "dataTooltip a = Some ''Invoice_2024.pdf'' \<and> nameText a = None \<and> titleAttr a = None \<and>
      ariaLabel a = None \<and> textContent a = []"
  have i: "includesStr ''Invoice_2024.pdf'' ''.pdf''" by code_simp
  have t: "trim ''Invoice_2024.pdf'' = ''Invoice_2024.pdf''" by code_simp
  have e: "endsWith (toLowerCase ''Invoice_2024.pdf'') ''.pdf''" by code_simp
  from h i t show "getAttachmentFileName a = ''Invoice_2024.pdf''"
    by (simp add: getAttachmentFileName_def hasPdf_def)
  from h e show "isPdfAttachment a"
    by (simp add: isPdfAttachment_def lowerOrEmpty_def endsWith_def)
next
  assume "nameText a = Some t \<and> includesStr t ''.pdf''"
  then show "getAttachmentFileName a = trim t"
    by (simp add: getAttachmentFileName_def hasPdf_def)
next
  assume "\<not> hasPdf (nameText a) \<and> dataTooltip a = Some t \<and> includesStr t ''.pdf''"
  then show "getAttachmentFileName a = trim t"
    by (simp add: getAttachmentFileName_def hasPdf_def)
next
  assume "\<not> hasPdf (nameText a) \<and> \<not> hasPdf (dataTooltip a) \<and>
      titleAttr a = Some t \<and> includesStr t ''.pdf''"
  then show "getAttachmentFileName a = trim t"
    by (simp add: getAttachmentFileName_def hasPdf_def)
next
  assume "\<not> hasPdf (nameText a) \<and> \<not> hasPdf (dataTooltip a) \<and> \<not> hasPdf (titleAttr a) \<and>
      ariaLabel a = Some t \<and> includesStr t ''.pdf''"
  then show "getAttachmentFileName a = trim t"
    by (simp add: getAttachmentFileName_def hasPdf_def)
next
  assume "\<not> hasPdf (nameText a) \<and> \<not> hasPdf (dataTooltip a) \<and> \<not> hasPdf (titleAttr a) \<and>
      \<not> hasPdf (ariaLabel a) \<and> pdfMatch (textContent a) = Some m"
  then show "getAttachmentFileName a = m"
    by (simp add: getAttachmentFileName_def)
next
  assume "\<not> hasPdf (nameText a) \<and> \<not> hasPdf (dataTooltip a) \<and> \<not> hasPdf (titleAttr a) \<and>
      \<not> hasPdf (ariaLabel a) \<and> pdfMatch (textContent a) = None"
  then show "getAttachmentFileName a = ''document.pdf''"
    by (simp add: getAttachmentFileName_def)
next
  assume h: "\<forall>s \<in> set (signals a). \<not> includesStr (toLowerCase s) ''.pdf''"
  have n: "\<not> includesStr (lowerOrEmpty (nameText a)) ''.pdf'' \<and>
      \<not> endsWith (lowerOrEmpty (nameText a)) ''.pdf'' \<and> \<not> hasPdf (nameText a)"
    using h by (intro lowerOrEmpty_clean) (simp add: signals_def)
  have tt: "\<not> includesStr (lowerOrEmpty (dataTooltip a)) ''.pdf'' \<and>
      \<not> endsWith (lowerOrEmpty (dataTooltip a)) ''.pdf'' \<and> \<not> hasPdf (dataTooltip a)"
    using h by (intro lowerOrEmpty_clean) (simp add: signals_def)
  have ti: "\<not> includesStr (lowerOrEmpty (titleAttr a)) ''.pdf'' \<and>
      \<not> endsWith (lowerOrEmpty (titleAttr a)) ''.pdf'' \<and> \<not> hasPdf (titleAttr a)"
    using h by (intro lowerOrEmpty_clean) (simp add: signals_def)
  have ar: "\<not> includesStr (lowerOrEmpty (ariaLabel a)) ''.pdf'' \<and>
      \<not> endsWith (lowerOrEmpty (ariaLabel a)) ''.pdf'' \<and> \<not> hasPdf (ariaLabel a)"
    using h by (intro lowerOrEmpty_clean) (simp add: signals_def)
  from h have tx: "\<not> includesStr (toLowerCase (textContent a)) ''.pdf''"
    by (simp add: signals_def)
  then have pm: "pdfMatch (textContent a) = None"
    using pdfMatch_includes by (cases "pdfMatch (textContent a)") auto
  from n tt ti ar pm show "getAttachmentFileName a = ''document.pdf''"
    by (simp add: getAttachmentFileName_def)
  from n tt ti ar tx show "\<not> isPdfAttachment a"
    by (simp add: isPdfAttachment_def)
qed

theorem filename_extraction_cascade_witness:
  "getAttachmentFileName
     \<lparr>processed = False, nameText = None, dataTooltip = Some ''Invoice_2024.pdf'',
      titleAttr = None, ariaLabel = None, textContent = [], rendersHidden = False,
      hasParent = True, injectedInside = [], injectedAfter = []\<rparr> = ''Invoice_2024.pdf'' \<and>
   isPdfAttachment
     \<lparr>processed = False, nameText = None, dataTooltip = Some ''Invoice_2024.pdf'',
      titleAttr = None, ariaLabel = None, textContent = [], rendersHidden = False,
      hasParent = True, injectedInside = [], injectedAfter = []\<rparr> \<and>
   includesStr ''n.pdf'' ''.pdf'' \<and>
   getAttachmentFileName
     \<lparr>processed = False, nameText = Some ''n.pdf'', dataTooltip = Some ''t.pdf'',
      titleAttr = Some ''i.pdf'', ariaLabel = Some ''l.pdf'', textContent = ''n.pdf c.pdf'',
      rendersHidden = False, hasParent = True, injectedInside = [], injectedAfter = []\<rparr>
     = ''n.pdf'' \<and>
   \<not> hasPdf None \<and> includesStr ''t.pdf'' ''.pdf'' \<and>
   getAttachmentFileName
     \<lparr>processed = False, nameText = None, dataTooltip = Some ''t.pdf'',
      titleAttr = Some ''i.pdf'', ariaLabel = Some ''l.pdf'', textContent = ''c.pdf'',
      rendersHidden = False, hasParent = True, injectedInside = [], injectedAfter = []\<rparr>
     = ''t.pdf'' \<and>
   includesStr ''i.pdf'' ''.pdf'' \<and>
   getAttachmentFileName
     \<lparr>processed = False, nameText = None, dataTooltip = None,
      titleAttr = Some ''i.pdf'', ariaLabel = Some ''l.pdf'', textContent = ''c.pdf'',
      rendersHidden = False, hasParent = True, injectedInside = [], injectedAfter = []\<rparr>
     = ''i.pdf'' \<and>
   includesStr ''l.pdf'' ''.pdf'' \<and>
   getAttachmentFileName
     \<lparr>processed = False, nameText = None, dataTooltip = None,
      titleAttr = None, ariaLabel = Some ''l.pdf'', textContent = ''c.pdf'',
      rendersHidden = False, hasParent = True, injectedInside = [], injectedAfter = []\<rparr>
     = ''l.pdf'' \<and>
   pdfMatch ''see c.pdf'' = Some ''c.pdf'' \<and>
   getAttachmentFileName
     \<lparr>processed = False, nameText = None, dataTooltip = None,
      titleAttr = None, ariaLabel = None, textContent = ''see c.pdf'',
      rendersHidden = False, hasParent = True, injectedInside = [], injectedAfter = []\<rparr>
     = ''c.pdf'' \<and>
   signals
     \<lparr>processed = False, nameText = Some ''photo.png'', dataTooltip = None,
      titleAttr = None, ariaLabel = None, textContent = ''photo.png 2 MB'', rendersHidden = False,
      hasParent = True, injectedInside = [], injectedAfter = []\<rparr>
     = [''photo.png'', ''photo.png 2 MB''] \<and>
   \<not> includesStr (toLowerCase ''photo.png'') ''.pdf'' \<and>
   \<not> includesStr (toLowerCase ''photo.png 2 MB'') ''.pdf'' \<and>
   getAttachmentFileName
     \<lparr>processed = False, nameText = Some ''photo.png'', dataTooltip = None,
      titleAttr = None, ariaLabel = None, textContent = ''photo.png 2 MB'', rendersHidden = False,
      hasParent = True, injectedInside = [], injectedAfter = []\<rparr> = ''document.pdf''"
proof -
  let ?a = "\<lparr>processed = False, nameText = None, dataTooltip = Some ''Invoice_2024.pdf'',
      titleAttr = None, ariaLabel = None, textContent = [], rendersHidden = False,
      hasParent = True, injectedInside = [], injectedAfter = []\<rparr>"
  let ?n = "\<lparr>processed = False, nameText = Some ''n.pdf'', dataTooltip = Some ''t.pdf'',
      titleAttr = Some ''i.pdf'', ariaLabel = Some ''l.pdf'', textContent = ''n.pdf c.pdf'',
      rendersHidden = False, hasParent = True, injectedInside = [], injectedAfter = []\<rparr>"
  let ?t = "\<lparr>processed = False, nameText = None, dataTooltip = Some ''t.pdf'',
      titleAttr = Some ''i.pdf'', ariaLabel = Some ''l.pdf'', textContent = ''c.pdf'',
      rendersHidden = False, hasParent = True, injectedInside = [], injectedAfter = []\<rparr>"
  let ?i = "\<lparr>processed = False, nameText = None, dataTooltip = None,
      titleAttr = Some ''i.pdf'', ariaLabel = Some ''l.pdf'', textContent = ''c.pdf'',
      rendersHidden = False, hasParent = True, injectedInside = [], injectedAfter = []\<rparr>"
  let ?l = "\<lparr>processed = False, nameText = None, dataTooltip = None,
      titleAttr = None, ariaLabel = Some ''l.pdf'', textContent = ''c.pdf'',
      rendersHidden = False, hasParent = True, injectedInside = [], injectedAfter = []\<rparr>"
  let ?c = "\<lparr>processed = False, nameText = None, dataTooltip = None,
      titleAttr = None, ariaLabel = None, textContent = ''see c.pdf'',
      rendersHidden = False, hasParent = True, injectedInside = [], injectedAfter = []\<rparr>"
  let ?b = "\<lparr>processed = False, nameText = Some ''photo.png'', dataTooltip = None,
      titleAttr = None, ariaLabel = None, textContent = ''photo.png 2 MB'', rendersHidden = False,
      hasParent = True, injectedInside = [], injectedAfter = []\<rparr>"
  have s: "signals ?b = [''photo.png'', ''photo.png 2 MB'']" by (simp add: signals_def)
  have 1: "\<not> includesStr (toLowerCase ''photo.png'') ''.pdf''" by code_simp
  have 2: "\<not> includesStr (toLowerCase ''photo.png 2 MB'') ''.pdf''" by code_simp
  have h: "\<forall>s \<in> set (signals ?b). \<not> includesStr (toLowerCase s) ''.pdf''"
    unfolding s using 1 2 by simp
  have no: "\<not> hasPdf None" by (simp add: hasPdf_def)
  have pn: "includesStr ''n.pdf'' ''.pdf''" by code_simp
  have pt: "includesStr ''t.pdf'' ''.pdf''" by code_simp
  have pi: "includesStr ''i.pdf'' ''.pdf''" by code_simp
  have pl: "includesStr ''l.pdf'' ''.pdf''" by code_simp
  have pc: "pdfMatch ''see c.pdf'' = Some ''c.pdf''" by code_simp
  have tn: "trim ''n.pdf'' = ''n.pdf''" "trim ''t.pdf'' = ''t.pdf''" "trim ''i.pdf'' = ''i.pdf''"
    "trim ''l.pdf'' = ''l.pdf''" by code_simp+
  have ha: "dataTooltip ?a = Some ''Invoice_2024.pdf'' \<and> nameText ?a = None \<and>
      titleAttr ?a = None \<and> ariaLabel ?a = None \<and> textContent ?a = []" by simp
  note sa = filename_extraction_cascade[of ?a "[]" "[]", THEN conjunct1, THEN mp, OF ha]
  have a: "getAttachmentFileName ?a = ''Invoice_2024.pdf''" by (rule sa[THEN conjunct1])
  have a': "isPdfAttachment ?a" by (rule sa[THEN conjunct2])
  have hn: "nameText ?n = Some ''n.pdf'' \<and> includesStr ''n.pdf'' ''.pdf''"
    using pn by simp
  have "getAttachmentFileName ?n = trim ''n.pdf''"
    by (rule filename_extraction_cascade[of ?n "''n.pdf''" "[]", THEN conjunct2, THEN conjunct1, THEN mp, OF hn])
  then have n: "getAttachmentFileName ?n = ''n.pdf''" by (simp only: tn)
  have ht: "\<not> hasPdf (nameText ?t) \<and> dataTooltip ?t = Some ''t.pdf'' \<and>
      includesStr ''t.pdf'' ''.pdf''"
    using pt no by simp
  have "getAttachmentFileName ?t = trim ''t.pdf''"
    by (rule filename_extraction_cascade[of ?t "''t.pdf''" "[]", THEN conjunct2, THEN conjunct2, THEN conjunct1, THEN mp, OF ht])
  then have t: "getAttachmentFileName ?t = ''t.pdf''" by (simp only: tn)
  have hi: "\<not> hasPdf (nameText ?i) \<and> \<not> hasPdf (dataTooltip ?i) \<and>
      titleAttr ?i = Some ''i.pdf'' \<and> includesStr ''i.pdf'' ''.pdf''"
    using pi no by simp
  have "getAttachmentFileName ?i = trim ''i.pdf''"
    by (rule filename_extraction_cascade[of ?i "''i.pdf''" "[]", THEN conjunct2, THEN conjunct2, THEN conjunct2, THEN conjunct1, THEN mp, OF hi])
  then have i: "getAttachmentFileName ?i = ''i.pdf''" by (simp only: tn)
  have hl: "\<not> hasPdf (nameText ?l) \<and> \<not> hasPdf (dataTooltip ?l) \<and>
      \<not> hasPdf (titleAttr ?l) \<and> ariaLabel ?l = Some ''l.pdf'' \<and> includesStr ''l.pdf'' ''.pdf''"
    using pl no by simp
  have "getAttachmentFileName ?l = trim ''l.pdf''"
    by (rule filename_extraction_cascade[of ?l "''l.pdf''" "[]", THEN conjunct2, THEN conjunct2, THEN conjunct2, THEN conjunct2, THEN conjunct1, THEN mp, OF hl])
  then have l: "getAttachmentFileName ?l = ''l.pdf''" by (simp only: tn)
  have hc: "\<not> hasPdf (nameText ?c) \<and> \<not> hasPdf (dataTooltip ?c) \<and>
      \<not> hasPdf (titleAttr ?c) \<and> \<not> hasPdf (ariaLabel ?c) \<and>
      pdfMatch (textContent ?c) = Some ''c.pdf''"
    using pc no by simp
  have c: "getAttachmentFileName ?c = ''c.pdf''"
    by (rule filename_extraction_cascade[of ?c "[]" "''c.pdf''", THEN conjunct2, THEN conjunct2, THEN conjunct2, THEN conjunct2, THEN conjunct2, THEN conjunct1, THEN mp, OF hc])
  have b: "getAttachmentFileName ?b = ''document.pdf''"
    by (rule filename_extraction_cascade[of ?b "[]" "[]", THEN conjunct2, THEN conjunct2,
          THEN conjunct2, THEN conjunct2, THEN conjunct2, THEN conjunct2, THEN conjunct2,
          THEN mp, OF h, THEN conjunct1])
  show ?thesis by (intro conjI a a' pn n no pt t pi i pl l pc c s 1 2 b)
qed

text \<open>
  The claim as it was written fails twice.  With upper-case letters the placeholder is not
  reached: the text \<open>A.PDF\<close> does not contain \<open>.pdf\<close>, and the extracted file name
  is \<open>A.PDF\<close>.  And the order is not that of classification: for a chip with the
  aria-label \<open>x.pdf\<close> and the text \<open>y.pdf\<close>, classification answers on the text
  content, which it tests before the aria-label, while extraction takes \<open>x.pdf\<close> from
  the aria-label, not the \<open>y.pdf\<close> of the text content.
\<close>

theorem filename_extraction_order_and_case_counterexample:
  "signals upperCaseChip = [''A.PDF''] \<and> \<not> includesStr ''A.PDF'' ''.pdf'' \<and>
   getAttachmentFileName upperCaseChip = ''A.PDF'' \<and>
   getAttachmentFileName upperCaseChip \<noteq> ''document.pdf'' \<and>
   classifiedBy labelledChip = Some TextSignal \<and>
   pdfMatch (textContent labelledChip) = Some ''y.pdf'' \<and>
   ariaLabel labelledChip = Some ''x.pdf'' \<and>
   getAttachmentFileName labelledChip = ''x.pdf''"
  by code_simp

section \<open>Email identity\<close>

lemma urlMatchHere_nonempty: "urlMatchHere s = Some g \<Longrightarrow> g \<noteq> []"
  by (auto simp: urlMatchHere_def split: list.splits if_splits)

lemma urlMatch_nonempty: "urlMatch s = Some g \<Longrightarrow> g \<noteq> []"
  by (induction s) (auto split: option.splits dest: urlMatchHere_nonempty)

text \<open>
  Claim C7, as the code has it.  \<open>extractEmailId\<close> gives the captured segment of the URL
  fragment when the fragment matches (never the empty string); else the \<open>data-message-id\<close>
  of the first message container when that container carries it; else, when there is no
  message container, the generated fallback.
\<close>

theorem extractEmailId_sources:
  "(urlMatch (locationHash doc) = Some g \<longrightarrow>
      extractEmailId dateNow doc = Some g \<and> g \<noteq> []) \<and>
   (urlMatch (locationHash doc) = None \<and>
      find isMessageContainer (messageElements doc) = Some m \<and> dataMessageId m = Some v \<longrightarrow>
      extractEmailId dateNow doc = Some v) \<and>
   (urlMatch (locationHash doc) = None \<and>
      find isMessageContainer (messageElements doc) = None \<longrightarrow>
      extractEmailId dateNow doc
        = Some (''gmail-'' @ decimal dateNow @ ''-'' @ filter isAlnum (locationHash doc)))"
  by (simp add: extractEmailId_def urlMatch_nonempty)

theorem extractEmailId_sources_witness:
  "urlMatch (locationHash twoChipsPage) = Some ''E1'' \<and>
   extractEmailId 0 twoChipsPage = Some ''E1'' \<and>
   urlMatch ''#inbox/'' = None \<and>
   extractEmailId 0 \<lparr>locationHash = ''#inbox/'',
      messageElements = [\<lparr>dataMessageId = Some ''m7'', dataLegacyMessageId = None\<rparr>],
      subjectText = None, attachments = []\<rparr> = Some ''m7'' \<and>
   extractEmailId 1700 \<lparr>locationHash = ''#inbox/'', messageElements = [],
      subjectText = None, attachments = []\<rparr> = Some ''gmail-1700-inbox''"
proof -
  let ?d1 = "\<lparr>locationHash = ''#inbox/'',
      messageElements = [\<lparr>dataMessageId = Some ''m7'', dataLegacyMessageId = None\<rparr>],
      subjectText = None, attachments = []\<rparr>"
  let ?d2 = "\<lparr>locationHash = ''#inbox/'', messageElements = [],
      subjectText = None, attachments = []\<rparr>"
  have u: "urlMatch (locationHash twoChipsPage) = Some ''E1''" by code_simp
  have n: "urlMatch ''#inbox/'' = None" by code_simp
  have f: "find isMessageContainer (messageElements ?d1)
      = Some \<lparr>dataMessageId = Some ''m7'', dataLegacyMessageId = None\<rparr>"
    by (simp add: isMessageContainer_def)
  have g: "''gmail-'' @ decimal 1700 @ ''-'' @ filter isAlnum ''#inbox/'' = ''gmail-1700-inbox''"
    by code_simp
  from extractEmailId_sources[of twoChipsPage "''E1''" 0] u
  have 1: "extractEmailId 0 twoChipsPage = Some ''E1''" by blast
  from extractEmailId_sources[of ?d1 _ 0 "\<lparr>dataMessageId = Some ''m7'', dataLegacyMessageId = None\<rparr>" "''m7''"] n f
  have 2: "extractEmailId 0 ?d1 = Some ''m7''" by simp
  from extractEmailId_sources[of ?d2 _ 1700] n g
  have 3: "extractEmailId 1700 ?d2 = Some ''gmail-1700-inbox''" by simp
  from u n 1 2 3 show ?thesis by blast
qed

text \<open>
  On a page whose fragment is \<open>#inbox/\<close> and whose message container carries only
  \<open>data-legacy-message-id\<close>, \<open>extractEmailId\<close> gives null, and processing a PDF chip on
  that page puts no node into it.
\<close>

theorem extractEmailId_null_counterexample:
  "extractEmailId 0 legacyPage = None \<and>
   uiNodes (processAttachment (askStore DEFAULT_STORAGE) (askStoreEmail DEFAULT_STORAGE) 0 0 legacyPage)
     = []"
  by code_simp

end
